theory Spec2Isabelle
  imports Main
begin

section \<open>Python values, exceptions and list primitives\<close>

text \<open>
  The exceptions the modelled code can raise.  \<open>AssertionError\<close> is a failed
  \<^verbatim>\<open>assert\<close>, \<open>AttributeError\<close> the read of an attribute that was never set,
  \<open>TypeError\<close> an operation applied to \<^verbatim>\<open>None\<close>, \<open>IndexError\<close> a list index out of
  range, \<open>RuntimeError\<close> the error \<^verbatim>\<open>torch.narrow\<close> and \<^verbatim>\<open>view\<close> raise on a size
  that does not fit or \<^verbatim>\<open>all_gather\<close> raises on a buffer of another dtype or size,
  and \<open>ZeroDivisionError\<close> a division or modulo by zero.  \<open>Aborted\<close> is not an
  exception: it stands for the collective backend aborting the process.
\<close>

datatype error =
  AssertionError | AttributeError | IndexError | TypeError | RuntimeError | ZeroDivisionError
  | Aborted

text \<open>\<^verbatim>\<open>range(n)\<close>: empty when \<open>n \<le> 0\<close>.\<close>

definition py_range :: "int \<Rightarrow> int list" where
  "py_range n = map int [0..<nat n]"

text \<open>
  Subscription \<^verbatim>\<open>xs[i]\<close> of a list: positions \<open>0 \<dots> len - 1\<close> are read directly,
  positions \<open>- len \<dots> - 1\<close> are read from the end, every other position raises.
\<close>

definition py_getitem :: "'a list \<Rightarrow> int \<Rightarrow> error + 'a" where
  "py_getitem xs i =
     (if 0 \<le> i \<and> i < int (length xs) then Inr (xs ! nat i)
      else if - int (length xs) \<le> i \<and> i < 0 then Inr (xs ! nat (int (length xs) + i))
      else Inl IndexError)"

text \<open>A list comprehension \<^verbatim>\<open>[f(x) for x in xs]\<close> whose body may raise.\<close>

fun comprehension :: "('a \<Rightarrow> error + 'b) \<Rightarrow> 'a list \<Rightarrow> error + 'b list" where
  "comprehension f [] = Inr []"
| "comprehension f (x # xs) =
     (case f x of
        Inl e \<Rightarrow> Inl e
      | Inr y \<Rightarrow> (case comprehension f xs of Inl e \<Rightarrow> Inl e | Inr ys \<Rightarrow> Inr (y # ys)))"

text \<open>Truthiness of an \<^verbatim>\<open>Optional[int]\<close>: \<^verbatim>\<open>None\<close> and \<^verbatim>\<open>0\<close> are false.\<close>

definition truthy :: "int option \<Rightarrow> bool" where
  "truthy d = (case d of None \<Rightarrow> False | Some n \<Rightarrow> n \<noteq> 0)"


section \<open>PyTorchProcessGroupDict: the cache of communication groups\<close>

text \<open>
  A group handle is the object \<^verbatim>\<open>torch.distributed.new_group\<close> returns.  Every call
  returns a new object, so a handle is identified with the position of its creating
  call in the sequence of all \<^verbatim>\<open>new_group\<close> calls of the process.
\<close>

type_synonym GroupHandle = nat

type_synonym pg_key = "string \<times> int list"

text \<open>
  The state of the singleton \<^verbatim>\<open>PYTORCHPGDICT_\<close>: its dictionary, in insertion order,
  together with the trace of the \<^verbatim>\<open>new_group\<close> calls issued so far (the collective
  calls every rank must issue in the same order).
\<close>

record PyTorchProcessGroupDict =
  dict :: "(pg_key \<times> GroupHandle) list"
  new_group_calls :: "(int list \<times> string) list"

definition PyTorchProcessGroupDict_init :: PyTorchProcessGroupDict where
  "PyTorchProcessGroupDict_init = \<lparr>dict = [], new_group_calls = []\<rparr>"

definition new_group ::
  "int list \<Rightarrow> string \<Rightarrow> PyTorchProcessGroupDict \<Rightarrow> GroupHandle \<times> PyTorchProcessGroupDict" where
  "new_group ranks backend s =
     (length (new_group_calls s), s\<lparr>new_group_calls := new_group_calls s @ [(ranks, backend)]\<rparr>)"

text \<open>
  \<^verbatim>\<open>PyTorchProcessGroupDict.get\<close>: the key is the backend with the rank list as it
  was passed, turned into a tuple.
\<close>

definition get ::
  "int list \<Rightarrow> string \<Rightarrow> PyTorchProcessGroupDict \<Rightarrow> GroupHandle \<times> PyTorchProcessGroupDict" where
  "get rank_list backend s =
     (let rank_tuple = rank_list;
          pg_key = (backend, rank_tuple)
      in case map_of (dict s) pg_key of
           None \<Rightarrow>
             (let (h, s') = new_group rank_list backend s
              in (h, s'\<lparr>dict := dict s' @ [(pg_key, h)]\<rparr>))
         | Some h \<Rightarrow> (h, s))"

text \<open>
  What holds of every state the cache can reach: each stored handle was created by an
  earlier \<^verbatim>\<open>new_group\<close> call and no handle is stored under two keys.
\<close>

definition cache_inv :: "PyTorchProcessGroupDict \<Rightarrow> bool" where
  "cache_inv s \<longleftrightarrow>
     list_all (\<lambda>kh. snd kh < length (new_group_calls s)) (dict s) \<and> distinct (map snd (dict s))"


text \<open>
  A sequence of calls of \<open>get\<close>, made one after the other; each call is given by
  its rank list and its backend.
\<close>

fun get_sequence ::
  "(int list \<times> string) list \<Rightarrow> PyTorchProcessGroupDict \<Rightarrow> PyTorchProcessGroupDict" where
  "get_sequence [] s = s"
| "get_sequence ((rank_list, backend) # calls) s = get_sequence calls (snd (get rank_list backend s))"


section \<open>ProcessGroup: the two-dimensional grid of ranks\<close>

text \<open>What \<^verbatim>\<open>torch.distributed\<close> reports to the process.\<close>

record dist_runtime =
  is_initialized :: bool
  get_rank :: int
  get_world_size :: int

text \<open>
  The attributes \<^verbatim>\<open>__init__\<close> sets on a \<^verbatim>\<open>ProcessGroup\<close> once the runtime is active
  (\<open>self_rank\<close> is \<^verbatim>\<open>self._rank\<close>, and so on).  The rank lists of the row and of the
  column start as \<^verbatim>\<open>None\<close>.
\<close>

record ProcessGroup_attrs =
  self_rank :: int
  self_rank_list :: "int list"
  self_world_size :: int
  self_dp_degree :: int
  self_tp_degree :: int
  self_tp_rank_list :: "int list option"
  self_dp_rank_list :: "int list option"
  self_has_cpu_groups :: bool

text \<open>
  An instance is either the object \<^verbatim>\<open>__init__\<close> leaves when the runtime is not
  initialized, which has the attribute \<^verbatim>\<open>is_init = False\<close> and no other, or an
  object with \<^verbatim>\<open>is_init = True\<close> and all the attributes above.
\<close>

datatype ProcessGroup = Uninitialized | Initialized ProcessGroup_attrs

definition is_init :: "ProcessGroup \<Rightarrow> bool" where
  "is_init pg = (case pg of Uninitialized \<Rightarrow> False | Initialized a \<Rightarrow> True)"

text \<open>
  The \<^verbatim>\<open>if\<close>/\<^verbatim>\<open>elif\<close> chain of \<^verbatim>\<open>__init__\<close> that fixes the two degrees; the result
  is the pair \<open>(_dp_degree, _tp_degree)\<close>.  The first test compares with \<^verbatim>\<open>None\<close>,
  the next two use truthiness, and the last branch multiplies the two arguments as
  they are, which raises \<open>TypeError\<close> when one of them is \<^verbatim>\<open>None\<close>.
\<close>

definition resolve_degrees :: "int \<Rightarrow> int option \<Rightarrow> int option \<Rightarrow> error + (int \<times> int)" where
  "resolve_degrees world_size tp_degree dp_degree =
     (if dp_degree = None \<and> tp_degree = None then Inr (world_size, 1)
      else if truthy dp_degree \<and> \<not> truthy tp_degree then
        (case dp_degree of
           None \<Rightarrow> Inl TypeError
         | Some dp \<Rightarrow>
             if world_size mod dp = 0 then Inr (dp, world_size div dp) else Inl AssertionError)
      else if \<not> truthy dp_degree \<and> truthy tp_degree then
        (case tp_degree of
           None \<Rightarrow> Inl TypeError
         | Some tp \<Rightarrow>
             if world_size mod tp = 0 then Inr (world_size div tp, tp) else Inl AssertionError)
      else
        (case (dp_degree, tp_degree) of
           (Some dp, Some tp) \<Rightarrow>
             if dp * tp = world_size then Inr (dp, tp) else Inl AssertionError
         | _ \<Rightarrow> Inl TypeError))"

text \<open>
  \<^verbatim>\<open>i_tp_list = [self._rank_list[i * self._tp_degree + j] for j in range(self._tp_degree)]\<close>
  and
  \<^verbatim>\<open>j_dp_list = [self._rank_list[i * self._tp_degree + j] for i in range(self._dp_degree)]\<close>.
\<close>

definition i_tp_list :: "int list \<Rightarrow> int \<Rightarrow> int \<Rightarrow> error + int list" where
  "i_tp_list rank_list tp i = comprehension (\<lambda>j. py_getitem rank_list (i * tp + j)) (py_range tp)"

definition j_dp_list :: "int list \<Rightarrow> int \<Rightarrow> int \<Rightarrow> int \<Rightarrow> error + int list" where
  "j_dp_list rank_list tp dp j = comprehension (\<lambda>i. py_getitem rank_list (i * tp + j)) (py_range dp)"

text \<open>
  The two loops of \<^verbatim>\<open>__init__\<close>: for each index build the list with \<open>mk\<close>, register it
  under \<^verbatim>\<open>'nccl'\<close>, and remember it when it contains the rank of the process.
\<close>

fun init_groups ::
  "(int \<Rightarrow> error + int list) \<Rightarrow> int \<Rightarrow> int list \<Rightarrow> int list option \<Rightarrow>
   PyTorchProcessGroupDict \<Rightarrow> error + (int list option \<times> PyTorchProcessGroupDict)" where
  "init_groups mk rank [] cur s = Inr (cur, s)"
| "init_groups mk rank (i # is) cur s =
     (case mk i of
        Inl e \<Rightarrow> Inl e
      | Inr l \<Rightarrow>
          (let (h, s') = get l ''nccl'' s
           in init_groups mk rank is (if rank \<in> set l then Some l else cur) s'))"

text \<open>The two loops of \<^verbatim>\<open>set_cpu_groups\<close>: build each list and register it under \<^verbatim>\<open>'gloo'\<close>.\<close>

fun cpu_groups ::
  "(int \<Rightarrow> error + int list) \<Rightarrow> int list \<Rightarrow> PyTorchProcessGroupDict \<Rightarrow>
   error + PyTorchProcessGroupDict" where
  "cpu_groups mk [] s = Inr s"
| "cpu_groups mk (i # is) s =
     (case mk i of
        Inl e \<Rightarrow> Inl e
      | Inr l \<Rightarrow> (let (h, s') = get l ''gloo'' s in cpu_groups mk is s'))"

text \<open>
  The rank and the rank list \<^verbatim>\<open>__init__\<close> works with: the arguments when they are
  given, else what the runtime reports.  A given rank list is sorted.
\<close>

definition init_rank :: "dist_runtime \<Rightarrow> int option \<Rightarrow> int" where
  "init_rank rt rank = (case rank of None \<Rightarrow> get_rank rt | Some x \<Rightarrow> x)"

definition init_rank_list :: "dist_runtime \<Rightarrow> int list option \<Rightarrow> int list" where
  "init_rank_list rt ranks =
     (case ranks of None \<Rightarrow> py_range (get_world_size rt) | Some l \<Rightarrow> sort l)"

text \<open>
  \<^verbatim>\<open>ProcessGroup.__init__\<close>.  The result is the new object with the state of the
  cache, or the exception raised.
\<close>

definition ProcessGroup_init ::
  "dist_runtime \<Rightarrow> int option \<Rightarrow> int list option \<Rightarrow> int option \<Rightarrow> int option \<Rightarrow>
   PyTorchProcessGroupDict \<Rightarrow> error + (ProcessGroup \<times> PyTorchProcessGroupDict)" where
  "ProcessGroup_init rt rank ranks tp_degree dp_degree s =
     (if \<not> is_initialized rt then Inr (Uninitialized, s)
      else
        let r = init_rank rt rank;
            rank_list = init_rank_list rt ranks;
            world_size = int (length rank_list)
        in case resolve_degrees world_size tp_degree dp_degree of
             Inl e \<Rightarrow> Inl e
           | Inr (dp, tp) \<Rightarrow>
               (case init_groups (i_tp_list rank_list tp) r (py_range dp) None s of
                  Inl e \<Rightarrow> Inl e
                | Inr (tp_rank_list, s1) \<Rightarrow>
                    (case init_groups (j_dp_list rank_list tp dp) r (py_range tp) None s1 of
                       Inl e \<Rightarrow> Inl e
                     | Inr (dp_rank_list, s2) \<Rightarrow>
                         Inr (Initialized
                               \<lparr>self_rank = r, self_rank_list = rank_list,
                                self_world_size = world_size,
                                self_dp_degree = dp, self_tp_degree = tp,
                                self_tp_rank_list = tp_rank_list,
                                self_dp_rank_list = dp_rank_list,
                                self_has_cpu_groups = False\<rparr>, s2))))"

text \<open>Reading an attribute \<^verbatim>\<open>self._x\<close>: \<open>AttributeError\<close> when it was never set.\<close>

definition attr :: "ProcessGroup \<Rightarrow> (ProcessGroup_attrs \<Rightarrow> 'a) \<Rightarrow> error + 'a" where
  "attr pg f = (case pg of Uninitialized \<Rightarrow> Inl AttributeError | Initialized a \<Rightarrow> Inr (f a))"

definition has_cpu_groups :: "ProcessGroup \<Rightarrow> error + bool" where
  "has_cpu_groups pg = attr pg self_has_cpu_groups"

definition set_cpu_groups ::
  "ProcessGroup \<Rightarrow> PyTorchProcessGroupDict \<Rightarrow> error + (ProcessGroup \<times> PyTorchProcessGroupDict)" where
  "set_cpu_groups pg s =
     (case pg of
        Uninitialized \<Rightarrow> Inl AttributeError
      | Initialized a \<Rightarrow>
          if self_has_cpu_groups a then Inr (pg, s)
          else
            (case cpu_groups (i_tp_list (self_rank_list a) (self_tp_degree a))
                    (py_range (self_dp_degree a)) s of
               Inl e \<Rightarrow> Inl e
             | Inr s1 \<Rightarrow>
                 (case cpu_groups (j_dp_list (self_rank_list a) (self_tp_degree a) (self_dp_degree a))
                         (py_range (self_tp_degree a)) s1 of
                    Inl e \<Rightarrow> Inl e
                  | Inr s2 \<Rightarrow> Inr (Initialized (a\<lparr>self_has_cpu_groups := True\<rparr>), s2))))"

subsection \<open>Accessors\<close>

definition rank :: "ProcessGroup \<Rightarrow> error + int" where
  "rank pg = attr pg self_rank"

definition ranks_in_group :: "ProcessGroup \<Rightarrow> error + int list" where
  "ranks_in_group pg = attr pg self_rank_list"

definition world_size :: "ProcessGroup \<Rightarrow> error + int" where
  "world_size pg = attr pg self_world_size"

definition tp_rank_list :: "ProcessGroup \<Rightarrow> error + int list option" where
  "tp_rank_list pg = attr pg self_tp_rank_list"

definition dp_rank_list :: "ProcessGroup \<Rightarrow> error + int list option" where
  "dp_rank_list pg = attr pg self_dp_rank_list"

definition get_ranks_in_dp :: "ProcessGroup \<Rightarrow> error + int list option" where
  "get_ranks_in_dp pg = attr pg self_dp_rank_list"

definition get_ranks_in_tp :: "ProcessGroup \<Rightarrow> error + int list option" where
  "get_ranks_in_tp pg = attr pg self_tp_rank_list"

text \<open>\<^verbatim>\<open>self._rank % self._tp_degree\<close> and \<^verbatim>\<open>self._rank // self._tp_degree\<close>.\<close>

definition tp_local_rank :: "ProcessGroup \<Rightarrow> error + int" where
  "tp_local_rank pg =
     (case pg of
        Uninitialized \<Rightarrow> Inl AttributeError
      | Initialized a \<Rightarrow>
          if self_tp_degree a = 0 then Inl ZeroDivisionError
          else Inr (self_rank a mod self_tp_degree a))"

definition dp_local_rank :: "ProcessGroup \<Rightarrow> error + int" where
  "dp_local_rank pg =
     (case pg of
        Uninitialized \<Rightarrow> Inl AttributeError
      | Initialized a \<Rightarrow>
          if self_tp_degree a = 0 then Inl ZeroDivisionError
          else Inr (self_rank a div self_tp_degree a))"

text \<open>\<^verbatim>\<open>len(x)\<close> of an attribute that may hold \<^verbatim>\<open>None\<close>: \<open>TypeError\<close> on \<^verbatim>\<open>None\<close>.\<close>

definition py_len :: "'a list option \<Rightarrow> error + int" where
  "py_len x = (case x of None \<Rightarrow> Inl TypeError | Some l \<Rightarrow> Inr (int (length l)))"

definition dp_world_size :: "ProcessGroup \<Rightarrow> error + int" where
  "dp_world_size pg =
     (case pg of Uninitialized \<Rightarrow> Inl AttributeError | Initialized a \<Rightarrow> py_len (self_dp_rank_list a))"

definition tp_world_size :: "ProcessGroup \<Rightarrow> error + int" where
  "tp_world_size pg =
     (case pg of Uninitialized \<Rightarrow> Inl AttributeError | Initialized a \<Rightarrow> py_len (self_tp_rank_list a))"

text \<open>
  \<^verbatim>\<open>PYTORCHPGDICT_.get\<close> called with an attribute that may hold \<^verbatim>\<open>None\<close>: its first
  statement, \<^verbatim>\<open>tuple(rank_list)\<close>, raises \<open>TypeError\<close> on \<^verbatim>\<open>None\<close>.
\<close>

definition get_optional ::
  "int list option \<Rightarrow> string \<Rightarrow> PyTorchProcessGroupDict \<Rightarrow>
   error + (GroupHandle \<times> PyTorchProcessGroupDict)" where
  "get_optional rank_list backend s =
     (case rank_list of None \<Rightarrow> Inl TypeError | Some l \<Rightarrow> Inr (get l backend s))"

definition dp_process_group ::
  "ProcessGroup \<Rightarrow> PyTorchProcessGroupDict \<Rightarrow> error + (GroupHandle \<times> PyTorchProcessGroupDict)" where
  "dp_process_group pg s =
     (case pg of
        Uninitialized \<Rightarrow> Inl AttributeError
      | Initialized a \<Rightarrow> get_optional (self_dp_rank_list a) ''nccl'' s)"

definition tp_process_group ::
  "ProcessGroup \<Rightarrow> PyTorchProcessGroupDict \<Rightarrow> error + (GroupHandle \<times> PyTorchProcessGroupDict)" where
  "tp_process_group pg s =
     (case pg of
        Uninitialized \<Rightarrow> Inl AttributeError
      | Initialized a \<Rightarrow> get_optional (self_tp_rank_list a) ''nccl'' s)"

definition cpu_dp_process_group ::
  "ProcessGroup \<Rightarrow> PyTorchProcessGroupDict \<Rightarrow> error + (GroupHandle \<times> PyTorchProcessGroupDict)" where
  "cpu_dp_process_group pg s =
     (case pg of
        Uninitialized \<Rightarrow> Inl AttributeError
      | Initialized a \<Rightarrow>
          if \<not> self_has_cpu_groups a then Inl AssertionError
          else get_optional (self_dp_rank_list a) ''gloo'' s)"

definition cpu_tp_process_group ::
  "ProcessGroup \<Rightarrow> PyTorchProcessGroupDict \<Rightarrow> error + (GroupHandle \<times> PyTorchProcessGroupDict)" where
  "cpu_tp_process_group pg s =
     (case pg of
        Uninitialized \<Rightarrow> Inl AttributeError
      | Initialized a \<Rightarrow>
          if \<not> self_has_cpu_groups a then Inl AssertionError
          else get_optional (self_tp_rank_list a) ''gloo'' s)"

subsection \<open>The grid as the specification describes it\<close>

text \<open>
  Row \<open>i\<close> holds the ranks at the positions \<open>i * tp + j\<close> for \<open>j < tp\<close>, column \<open>j\<close>
  the ranks at the positions \<open>i * tp + j\<close> for \<open>i < dp\<close>.  \<open>grid_groups\<close> lists the
  rows in index order and then the columns in index order, and \<open>register_all\<close>
  passes a sequence of rank lists to \<open>get\<close>, one after the other.
\<close>

definition grid_row :: "int list \<Rightarrow> nat \<Rightarrow> nat \<Rightarrow> int list" where
  "grid_row rank_list tp i = map (\<lambda>j. rank_list ! (i * tp + j)) [0..<tp]"

definition grid_col :: "int list \<Rightarrow> nat \<Rightarrow> nat \<Rightarrow> nat \<Rightarrow> int list" where
  "grid_col rank_list tp dp j = map (\<lambda>i. rank_list ! (i * tp + j)) [0..<dp]"

definition grid_groups :: "int list \<Rightarrow> nat \<Rightarrow> nat \<Rightarrow> int list list" where
  "grid_groups rank_list tp dp =
     map (grid_row rank_list tp) [0..<dp] @ map (grid_col rank_list tp dp) [0..<tp]"

text \<open>
  What a loop of \<^verbatim>\<open>__init__\<close> leaves in \<^verbatim>\<open>_tp_rank_list\<close> or \<^verbatim>\<open>_dp_rank_list\<close> after
  it has seen the lists \<open>ls\<close>: the last list that contains the rank, if there is one.
\<close>

definition recorded :: "int \<Rightarrow> int list option \<Rightarrow> int list list \<Rightarrow> int list option" where
  "recorded r cur ls = foldl (\<lambda>cur l. if r \<in> set l then Some l else cur) cur ls"

definition register_all ::
  "string \<Rightarrow> int list list \<Rightarrow> PyTorchProcessGroupDict \<Rightarrow> PyTorchProcessGroupDict" where
  "register_all backend ls s = foldl (\<lambda>s l. snd (get l backend s)) s ls"

text \<open>
  The rank lists for which \<open>get\<close>, called on the lists \<open>ls\<close> in order under one
  backend on a cache that holds the keys \<open>keys\<close>, finds no entry and therefore calls
  \<^verbatim>\<open>new_group\<close>: every list that is not yet among the keys, at its first
  occurrence.
\<close>

fun uncached :: "string \<Rightarrow> pg_key list \<Rightarrow> int list list \<Rightarrow> int list list" where
  "uncached backend keys [] = []"
| "uncached backend keys (l # ls) =
     (if (backend, l) \<in> set keys then uncached backend keys ls
      else l # uncached backend (keys @ [(backend, l)]) ls)"


section \<open>ShardParam: sharding and gathering a payload\<close>

text \<open>
  A tensor is its elements in row-major order together with its shape and its dtype.
  The elements are of any type with a zero, which is all that padding needs; no
  arithmetic is done on them.  The dtype is the tag the collective compares.
\<close>

datatype dtype = Float16 | BFloat16 | Float32 | Float64 | Int32 | Int64

record 'a Tensor =
  t_data :: "'a list"
  t_shape :: "nat list"
  t_dtype :: dtype

definition numel :: "'a Tensor \<Rightarrow> nat" where
  "numel t = length (t_data t)"

definition wf_Tensor :: "'a Tensor \<Rightarrow> bool" where
  "wf_Tensor t \<longleftrightarrow> prod_list (t_shape t) = length (t_data t)"

text \<open>
  \<^verbatim>\<open>torch.zeros(n)\<close>: one-dimensional, with \<open>n\<close> zeros, of the default dtype, which is
  \<^verbatim>\<open>float32\<close>.
\<close>

definition zeros :: "nat \<Rightarrow> 'a::zero Tensor" where
  "zeros n = \<lparr>t_data = replicate n 0, t_shape = [n], t_dtype = Float32\<rparr>"

text \<open>
  \<^verbatim>\<open>torch.cat\<close> along dimension \<open>0\<close>, for a list of tensors that all have the dtype
  and the shape of the first one, which is how \<^verbatim>\<open>all_gather\<close> leaves its buffers.
  It raises on the empty list and on tensors without a dimension.
\<close>

definition cat :: "'a Tensor list \<Rightarrow> error + 'a Tensor" where
  "cat ts =
     (case ts of
        [] \<Rightarrow> Inl RuntimeError
      | t # us \<Rightarrow>
          (case t_shape t of
             [] \<Rightarrow> Inl RuntimeError
           | n # rest \<Rightarrow>
               Inr \<lparr>t_data = concat (map t_data ts), t_shape = (length ts * n) # rest,
                    t_dtype = t_dtype t\<rparr>))"

text \<open>
  \<^verbatim>\<open>torch.narrow(t, 0, start, length)\<close>: the rows \<open>start, \<dots>, start + length - 1\<close>
  along dimension \<open>0\<close>; it raises when the tensor has no dimension or the rows leave
  the tensor.  \<^verbatim>\<open>t.view(shape)\<close> raises when the shape has another number of
  elements.
\<close>

definition narrow :: "'a Tensor \<Rightarrow> nat \<Rightarrow> nat \<Rightarrow> error + 'a Tensor" where
  "narrow t start len =
     (case t_shape t of
        [] \<Rightarrow> Inl RuntimeError
      | n # rest \<Rightarrow>
          if start + len \<le> n
          then Inr \<lparr>t_data = take (len * prod_list rest) (drop (start * prod_list rest) (t_data t)),
                    t_shape = len # rest, t_dtype = t_dtype t\<rparr>
          else Inl RuntimeError)"

definition view :: "'a Tensor \<Rightarrow> nat list \<Rightarrow> error + 'a Tensor" where
  "view t shp = (if prod_list shp = numel t then Inr (t\<lparr>t_shape := shp\<rparr>) else Inl RuntimeError)"

datatype TensorType = GRAD | DATA

text \<open>
  A \<^verbatim>\<open>torch.nn.Parameter\<close>: its data and its gradient, taken to be present.
  \<^verbatim>\<open>param.shape\<close> and \<^verbatim>\<open>param.numel()\<close> are those of the data.
\<close>

record 'a Parameter =
  p_data :: "'a Tensor"
  p_grad :: "'a Tensor"

definition wf_Parameter :: "'a Parameter \<Rightarrow> bool" where
  "wf_Parameter p \<longleftrightarrow>
     wf_Tensor (p_data p) \<and> wf_Tensor (p_grad p) \<and> t_shape (p_grad p) = t_shape (p_data p)"

text \<open>
  The attributes of a \<^verbatim>\<open>ShardParam\<close>.  \<open>sp_world_size\<close> and \<open>sp_local_rank\<close> are what
  \<^verbatim>\<open>dist.get_world_size\<close> and \<^verbatim>\<open>dist.get_rank\<close> report for the process group, which
  for a member of the group are not negative.  The handle of the process group is
  only passed on to the collective, and \<^verbatim>\<open>_payload_numel\<close> is never read; both are
  left out.  \<^verbatim>\<open>is_shared\<close> is the flag that tells a sharded payload from a whole one.
\<close>

record 'a ShardParam =
  sp_world_size :: nat
  sp_local_rank :: nat
  sp_param_payload :: "'a Tensor"
  sp_origin_shape :: "nat list"
  sp_origin_numel :: nat
  sp_is_shared :: bool

definition ShardParam_init :: "'a Parameter \<Rightarrow> TensorType \<Rightarrow> nat \<Rightarrow> nat \<Rightarrow> 'a ShardParam" where
  "ShardParam_init param tensor_type group_world_size group_rank =
     \<lparr>sp_world_size = group_world_size,
      sp_local_rank = group_rank,
      sp_param_payload = (if tensor_type = DATA then p_data param else p_grad param),
      sp_origin_shape = t_shape (p_data param),
      sp_origin_numel = numel (p_data param),
      sp_is_shared = False\<rparr>"

text \<open>\<open>ceil (n / g)\<close> on natural numbers, for \<open>g \<ge> 1\<close>.\<close>

definition ceil_div :: "nat \<Rightarrow> nat \<Rightarrow> nat" where
  "ceil_div n g = (n + g - 1) div g"

text \<open>
  Modelled from the spec: \<^verbatim>\<open>get_shard\<close> of
  \<^verbatim>\<open>colossalai.zero.sharded_model._zero3_utils\<close>, which is not among the sources.
  The payload is flattened to length \<open>N\<close>, \<open>chunk = ceil (N / group_world_size)\<close>,
  the flattened payload is padded with zeros up to \<open>chunk * group_world_size\<close>, and the
  local shard is the slice \<open>[local_index * chunk, (local_index + 1) * chunk)\<close> of the
  padded sequence, a one-dimensional tensor of the dtype of the payload.  The
  second component of the result of \<^verbatim>\<open>get_shard\<close> is dropped by its caller and is
  not modelled.
\<close>

definition get_shard :: "'a::zero Tensor \<Rightarrow> nat \<Rightarrow> nat \<Rightarrow> 'a Tensor" where
  "get_shard tensor local_index group_world_size =
     (let flat = t_data tensor;
          chunk = ceil_div (length flat) group_world_size;
          padded = flat @ replicate (chunk * group_world_size - length flat) 0;
          local = take chunk (drop (local_index * chunk) padded)
      in \<lparr>t_data = local, t_shape = [length local], t_dtype = t_dtype tensor\<rparr>)"

text \<open>\<^verbatim>\<open>ShardParam.shard\<close>.\<close>

definition shard :: "'a::zero ShardParam \<Rightarrow> 'a ShardParam" where
  "shard sp =
     (if sp_is_shared sp then sp
      else sp\<lparr>sp_param_payload := get_shard (sp_param_payload sp) (sp_local_rank sp) (sp_world_size sp),
              sp_is_shared := True\<rparr>)"

text \<open>
  \<^verbatim>\<open>torch.distributed.all_gather(tensor_list, tensor, group)\<close> as seen from the rank
  \<open>my_rank\<close> of the group; \<open>peers i\<close> is the tensor the process of rank \<open>i\<close>
  contributes.  The collective works on buffers of one dtype and one size: it raises
  when a tensor of \<open>tensor_list\<close> differs from \<open>tensor\<close> in dtype or shape, and the
  backend aborts the process when the contribution of another rank does.  Otherwise
  slot \<open>i\<close> of the list receives what rank \<open>i\<close> passed as its \<open>tensor\<close>.
\<close>

definition same_meta :: "'a Tensor \<Rightarrow> 'a Tensor \<Rightarrow> bool" where
  "same_meta a b \<longleftrightarrow> t_dtype b = t_dtype a \<and> t_shape b = t_shape a"

definition all_gather ::
  "(nat \<Rightarrow> 'a Tensor) \<Rightarrow> nat \<Rightarrow> 'a Tensor list \<Rightarrow> 'a Tensor \<Rightarrow> error + 'a Tensor list" where
  "all_gather peers my_rank tensor_list tensor =
     (if \<not> list_all (same_meta tensor) tensor_list then Inl RuntimeError
      else if \<not> list_all (\<lambda>i. i = my_rank \<or> same_meta tensor (peers i)) [0..<length tensor_list]
      then Inl Aborted
      else Inr (map (\<lambda>i. if i = my_rank then tensor else peers i) [0..<length tensor_list]))"

text \<open>
  \<^verbatim>\<open>ShardParam.gather\<close>, in three steps.  \<open>buffer_list\<close> is the list the loop builds,
  with the payload in the slot of the local rank and \<^verbatim>\<open>torch.zeros(payload_numel)\<close>
  elsewhere.  \<open>collect\<close> runs the collective on it and concatenates the buffers.
  \<open>gather\<close> then keeps the first \<open>_origin_numel\<close> elements and views them in the
  original shape.
\<close>

definition buffer_list :: "'a::zero ShardParam \<Rightarrow> 'a Tensor list" where
  "buffer_list sp =
     (let payload_numel = numel (sp_param_payload sp)
      in map (\<lambda>i. if i = sp_local_rank sp then sp_param_payload sp else zeros payload_numel)
           [0..<sp_world_size sp])"

definition collect :: "(nat \<Rightarrow> 'a Tensor) \<Rightarrow> 'a::zero ShardParam \<Rightarrow> error + 'a Tensor" where
  "collect peers sp =
     (case py_getitem (buffer_list sp) (int (sp_local_rank sp)) of
        Inl e \<Rightarrow> Inl e
      | Inr tensor \<Rightarrow>
          (case all_gather peers (sp_local_rank sp) (buffer_list sp) tensor of
             Inl e \<Rightarrow> Inl e
           | Inr buffers \<Rightarrow> cat buffers))"

definition gather :: "(nat \<Rightarrow> 'a Tensor) \<Rightarrow> 'a::zero ShardParam \<Rightarrow> error + 'a ShardParam" where
  "gather peers sp =
     (if \<not> sp_is_shared sp then Inr sp
      else
        case collect peers sp of
          Inl e \<Rightarrow> Inl e
        | Inr collected \<Rightarrow>
            (case narrow collected 0 (sp_origin_numel sp) of
               Inl e \<Rightarrow> Inl e
             | Inr t \<Rightarrow>
                 (case view t (sp_origin_shape sp) of
                    Inl e \<Rightarrow> Inl e
                  | Inr t' \<Rightarrow> Inr (sp\<lparr>sp_param_payload := t', sp_is_shared := False\<rparr>))))"


section \<open>The cache: lemmas\<close>

lemma cache_inv_init: "cache_inv PyTorchProcessGroupDict_init"
  by (simp add: cache_inv_def PyTorchProcessGroupDict_init_def)

lemma get_hit:
  "map_of (dict s) (b, rl) = Some h \<Longrightarrow> get rl b s = (h, s)"
  by (simp add: get_def)

lemma get_miss:
  "map_of (dict s) (b, rl) = None \<Longrightarrow>
   get rl b s = (length (new_group_calls s),
     s\<lparr>new_group_calls := new_group_calls s @ [(rl, b)],
       dict := dict s @ [((b, rl), length (new_group_calls s))]\<rparr>)"
  by (simp add: get_def new_group_def)

lemma map_of_snd_less:
  "list_all (\<lambda>kh. snd kh < n) xs \<Longrightarrow> map_of xs k = Some h \<Longrightarrow> h < (n::nat)"
  by (induction xs) (auto split: if_splits)

lemma map_of_distinct_snd_inj:
  "distinct (map snd xs) \<Longrightarrow> map_of xs k = Some h \<Longrightarrow> map_of xs k' = Some h \<Longrightarrow> k = k'"
proof (induction xs)
  case Nil
  then show ?case by simp
next
  case (Cons x xs)
  obtain a v where x: "x = (a, v)" by (cases x)
  have notin: "\<And>q w. map_of xs q = Some w \<Longrightarrow> w \<noteq> v"
  proof
    fix q w assume "map_of xs q = Some w" and "w = v"
    then have "(q, v) \<in> set xs" by (auto dest: map_of_SomeD)
    then have "v \<in> snd ` set xs" by force
    with Cons.prems(1) x show False by simp
  qed
  show ?case
  proof (cases "k = a")
    case True
    with Cons.prems x have hv: "h = v" by simp
    show ?thesis
    proof (cases "k' = a")
      case True
      with \<open>k = a\<close> show ?thesis by simp
    next
      case False
      with Cons.prems x have "map_of xs k' = Some h" by simp
      with notin hv show ?thesis by blast
    qed
  next
    case False
    with Cons.prems x have kk: "map_of xs k = Some h" by simp
    show ?thesis
    proof (cases "k' = a")
      case True
      with Cons.prems x have "h = v" by simp
      with notin kk show ?thesis by blast
    next
      case False
      with Cons.prems x have "map_of xs k' = Some h" by simp
      with Cons.IH Cons.prems(1) kk show ?thesis by simp
    qed
  qed
qed

lemma get_preserves_inv:
  assumes "cache_inv s"
  shows "cache_inv (snd (get rl b s))"
proof (cases "map_of (dict s) (b, rl)")
  case None
  have "list_all (\<lambda>kh. snd kh < Suc (length (new_group_calls s))) (dict s)"
    using assms by (auto simp: cache_inv_def list_all_iff)
  moreover have "length (new_group_calls s) \<notin> snd ` set (dict s)"
    using assms by (auto simp: cache_inv_def list_all_iff)
  ultimately show ?thesis
    using assms by (simp add: get_miss [OF None] cache_inv_def)
next
  case (Some h)
  then show ?thesis using assms by (simp add: get_hit)
qed

lemma get_stores:
  "map_of (dict (snd (get rl b s))) (b, rl) = Some (fst (get rl b s))"
proof (cases "map_of (dict s) (b, rl)")
  case None
  then show ?thesis by (simp add: get_miss map_of_append map_add_def)
next
  case (Some h)
  then show ?thesis by (simp add: get_hit)
qed


lemma get_again:
  assumes "cache_inv s"
  shows "fst (get rl' b' (snd (get rl b s))) = fst (get rl b s) \<longleftrightarrow> (b', rl') = (b, rl)"
proof -
  define s1 where "s1 = snd (get rl b s)"
  define h1 where "h1 = fst (get rl b s)"
  have inv1: "cache_inv s1"
    unfolding s1_def by (rule get_preserves_inv [OF assms])
  have stored: "map_of (dict s1) (b, rl) = Some h1"
    unfolding s1_def h1_def by (rule get_stores)
  have "fst (get rl' b' s1) = h1 \<longleftrightarrow> (b', rl') = (b, rl)"
  proof (cases "(b', rl') = (b, rl)")
    case True
    then show ?thesis using stored by (simp add: get_hit)
  next
    case False
    show ?thesis
    proof (cases "map_of (dict s1) (b', rl')")
      case None
      have "h1 < length (new_group_calls s1)"
        using inv1 stored by (auto simp: cache_inv_def dest: map_of_snd_less)
      then show ?thesis using None False by (simp add: get_miss)
    next
      case (Some h2)
      have "h2 \<noteq> h1"
      proof
        assume "h2 = h1"
        with Some stored inv1 have "(b', rl') = (b, rl)"
          by (auto simp: cache_inv_def dest: map_of_distinct_snd_inj)
        with False show False by simp
      qed
      then show ?thesis using Some False by (simp add: get_hit)
    qed
  qed
  then show ?thesis by (simp add: s1_def h1_def)
qed


lemma get_keeps_entry:
  assumes "map_of (dict s) k = Some h"
  shows "map_of (dict (snd (get rl b s))) k = Some h"
proof (cases "map_of (dict s) (b, rl)")
  case None
  then show ?thesis using assms by (simp add: get_miss map_of_append map_add_def)
next
  case (Some h')
  then show ?thesis using assms by (simp add: get_hit)
qed

lemma get_sequence_keeps_entry:
  "map_of (dict s) k = Some h \<Longrightarrow> map_of (dict (get_sequence calls s)) k = Some h"
proof (induction calls arbitrary: s)
  case Nil
  then show ?case by simp
next
  case (Cons c calls)
  obtain rl b where c: "c = (rl, b)" by (cases c)
  from Cons.prems have "map_of (dict (snd (get rl b s))) k = Some h" by (rule get_keeps_entry)
  from Cons.IH [OF this] show ?case by (simp add: c)
qed

lemma get_sequence_preserves_inv:
  "cache_inv s \<Longrightarrow> cache_inv (get_sequence calls s)"
proof (induction calls arbitrary: s)
  case Nil
  then show ?case by simp
next
  case (Cons c calls)
  obtain rl b where c: "c = (rl, b)" by (cases c)
  from Cons.prems have "cache_inv (snd (get rl b s))" by (rule get_preserves_inv)
  from Cons.IH [OF this] show ?case by (simp add: c)
qed

lemma reachable_cache_inv: "cache_inv (get_sequence calls PyTorchProcessGroupDict_init)"
  by (rule get_sequence_preserves_inv [OF cache_inv_init])

lemma get_later:
  assumes "cache_inv s"
  shows "fst (get rl' b' (get_sequence calls (snd (get rl b s)))) = fst (get rl b s)
           \<longleftrightarrow> (b', rl') = (b, rl)"
proof -
  define h1 where "h1 = fst (get rl b s)"
  define s2 where "s2 = get_sequence calls (snd (get rl b s))"
  have inv2: "cache_inv s2"
    unfolding s2_def by (intro get_sequence_preserves_inv get_preserves_inv assms)
  have stored: "map_of (dict s2) (b, rl) = Some h1"
    unfolding s2_def h1_def by (intro get_sequence_keeps_entry get_stores)
  have "fst (get rl' b' s2) = h1 \<longleftrightarrow> (b', rl') = (b, rl)"
  proof (cases "(b', rl') = (b, rl)")
    case True
    then show ?thesis using stored by (simp add: get_hit)
  next
    case False
    show ?thesis
    proof (cases "map_of (dict s2) (b', rl')")
      case None
      have "h1 < length (new_group_calls s2)"
        using inv2 stored by (auto simp: cache_inv_def dest: map_of_snd_less)
      then show ?thesis using None False by (simp add: get_miss)
    next
      case (Some h2)
      have "h2 \<noteq> h1"
      proof
        assume "h2 = h1"
        with Some stored inv2 have "(b', rl') = (b, rl)"
          by (auto simp: cache_inv_def dest: map_of_distinct_snd_inj)
        with False show False by simp
      qed
      then show ?thesis using Some False by (simp add: get_hit)
    qed
  qed
  then show ?thesis by (simp add: s2_def h1_def)
qed

lemma get_new_group_calls:
  "new_group_calls (snd (get l b s)) =
     new_group_calls s @ (if (b, l) \<in> set (map fst (dict s)) then [] else [(l, b)])"
proof (cases "map_of (dict s) (b, l)")
  case None
  then have "(b, l) \<notin> set (map fst (dict s))" by (simp add: map_of_eq_None_iff)
  then show ?thesis using None by (simp add: get_miss)
next
  case (Some h)
  then have "(b, l) \<in> set (map fst (dict s))"
    using map_of_eq_None_iff [of "dict s" "(b, l)"] by auto
  then show ?thesis using Some by (simp add: get_hit)
qed

lemma get_keys:
  "map fst (dict (snd (get l b s))) =
     map fst (dict s) @ (if (b, l) \<in> set (map fst (dict s)) then [] else [(b, l)])"
proof (cases "map_of (dict s) (b, l)")
  case None
  then have "(b, l) \<notin> set (map fst (dict s))" by (simp add: map_of_eq_None_iff)
  then show ?thesis using None by (simp add: get_miss)
next
  case (Some h)
  then have "(b, l) \<in> set (map fst (dict s))"
    using map_of_eq_None_iff [of "dict s" "(b, l)"] by auto
  then show ?thesis using Some by (simp add: get_hit)
qed


section \<open>The loops of the grid: lemmas\<close>

lemma comprehension_ok:
  "(\<And>x. x \<in> set xs \<Longrightarrow> f x = Inr (g x)) \<Longrightarrow> comprehension f xs = Inr (map g xs)"
  by (induction xs) auto

lemma register_all_append:
  "register_all b (xs @ ys) s = register_all b ys (register_all b xs s)"
  by (simp add: register_all_def)

lemma register_all_Cons:
  "register_all b (l # ls) s = register_all b ls (snd (get l b s))"
  by (simp add: register_all_def)

lemma recorded_Cons:
  "recorded r cur (l # ls) = recorded r (if r \<in> set l then Some l else cur) ls"
  by (simp add: recorded_def)

lemma init_groups_ok:
  "(\<And>i. i \<in> set is \<Longrightarrow> mk i = Inr (g i)) \<Longrightarrow>
   init_groups mk r is cur s =
     Inr (recorded r cur (map g is), register_all ''nccl'' (map g is) s)"
proof (induction "is" arbitrary: cur s)
  case Nil
  then show ?case by (simp add: recorded_def register_all_def)
next
  case (Cons i "is")
  have "mk i = Inr (g i)" using Cons.prems by simp
  moreover have "\<And>k. k \<in> set is \<Longrightarrow> mk k = Inr (g k)" using Cons.prems by simp
  ultimately show ?case
    using Cons.IH by (simp add: split_def recorded_Cons register_all_Cons)
qed

lemma cpu_groups_ok:
  "(\<And>i. i \<in> set is \<Longrightarrow> mk i = Inr (g i)) \<Longrightarrow>
   cpu_groups mk is s = Inr (register_all ''gloo'' (map g is) s)"
proof (induction "is" arbitrary: s)
  case Nil
  then show ?case by (simp add: register_all_def)
next
  case (Cons i "is")
  have "mk i = Inr (g i)" using Cons.prems by simp
  moreover have "\<And>k. k \<in> set is \<Longrightarrow> mk k = Inr (g k)" using Cons.prems by simp
  ultimately show ?case
    using Cons.IH by (simp add: split_def register_all_Cons)
qed

lemma resolve_degrees_product:
  "resolve_degrees ws tp dp = Inr (d, t) \<Longrightarrow> d * t = ws"
  by (auto simp: resolve_degrees_def truthy_def split: if_splits option.splits)

lemma index_in_grid:
  assumes "i < D" "j < T"
  shows "i * T + j < D * (T::nat)"
proof -
  have "i * T + j < i * T + T" using assms by simp
  also have "\<dots> = Suc i * T" by simp
  also have "\<dots> \<le> D * T" using assms by (intro mult_le_mono1) simp
  finally show ?thesis .
qed

lemma py_getitem_nat: "n < length xs \<Longrightarrow> py_getitem xs (int n) = Inr (xs ! n)"
  by (simp add: py_getitem_def)

lemma i_tp_list_ok:
  assumes "d * t = int (length rl)" "i < nat d"
  shows "i_tp_list rl t (int i) = Inr (grid_row rl (nat t) i)"
proof -
  have "comprehension (\<lambda>j. py_getitem rl (int i * t + j)) (py_range t)
        = Inr (map (\<lambda>j. rl ! (i * nat t + nat j)) (py_range t))"
  proof (rule comprehension_ok)
    fix j assume "j \<in> set (py_range t)"
    then obtain k where k: "j = int k" "k < nat t" by (auto simp: py_range_def)
    then have tpos: "0 < t" by simp
    have dpos: "0 < d" using assms by simp
    have "i * nat t + k < nat d * nat t" using assms k by (intro index_in_grid)
    also have "int (nat d * nat t) = d * t" using tpos dpos by simp
    finally have lt: "i * nat t + k < length rl" using assms by linarith
    have eq: "int i * t + int k = int (i * nat t + k)" using tpos by simp
    show "py_getitem rl (int i * t + j) = Inr (rl ! (i * nat t + nat j))"
      unfolding k eq nat_int by (rule py_getitem_nat [OF lt])
  qed
  then show ?thesis
    by (simp add: i_tp_list_def grid_row_def py_range_def comp_def)
qed

lemma j_dp_list_ok:
  assumes "d * t = int (length rl)" "j < nat t"
  shows "j_dp_list rl t d (int j) = Inr (grid_col rl (nat t) (nat d) j)"
proof -
  have "comprehension (\<lambda>i. py_getitem rl (i * t + int j)) (py_range d)
        = Inr (map (\<lambda>i. rl ! (nat i * nat t + j)) (py_range d))"
  proof (rule comprehension_ok)
    fix i assume "i \<in> set (py_range d)"
    then obtain k where k: "i = int k" "k < nat d" by (auto simp: py_range_def)
    then have dpos: "0 < d" by simp
    have tpos: "0 < t" using assms by simp
    have "k * nat t + j < nat d * nat t" using assms k by (intro index_in_grid)
    also have "int (nat d * nat t) = d * t" using tpos dpos by simp
    finally have lt: "k * nat t + j < length rl" using assms by linarith
    have eq: "int k * t + int j = int (k * nat t + j)" using tpos by simp
    show "py_getitem rl (i * t + int j) = Inr (rl ! (nat i * nat t + j))"
      unfolding k eq nat_int by (rule py_getitem_nat [OF lt])
  qed
  then show ?thesis
    by (simp add: j_dp_list_def grid_col_def py_range_def comp_def)
qed


lemma rows_ok:
  assumes "d * t = int (length rl)" "i \<in> set (py_range d)"
  shows "i_tp_list rl t i = Inr (grid_row rl (nat t) (nat i))"
proof -
  from assms(2) obtain k where "i = int k" "k < nat d" by (auto simp: py_range_def)
  then show ?thesis using i_tp_list_ok [OF assms(1), of k] by simp
qed

lemma cols_ok:
  assumes "d * t = int (length rl)" "j \<in> set (py_range t)"
  shows "j_dp_list rl t d j = Inr (grid_col rl (nat t) (nat d) (nat j))"
proof -
  from assms(2) obtain k where "j = int k" "k < nat t" by (auto simp: py_range_def)
  then show ?thesis using j_dp_list_ok [OF assms(1), of k] by simp
qed

lemma map_nat_py_range: "map (\<lambda>i. f (nat i)) (py_range n) = map f [0..<nat n]"
  by (simp add: py_range_def comp_def)

lemma init_rows:
  assumes "d * t = int (length rl)"
  shows "init_groups (i_tp_list rl t) r (py_range d) cur s =
           Inr (recorded r cur (map (grid_row rl (nat t)) [0..<nat d]),
                register_all ''nccl'' (map (grid_row rl (nat t)) [0..<nat d]) s)"
  using init_groups_ok [of "py_range d" "i_tp_list rl t" "\<lambda>i. grid_row rl (nat t) (nat i)" r cur s]
    rows_ok [OF assms]
  by (simp add: map_nat_py_range)

lemma init_cols:
  assumes "d * t = int (length rl)"
  shows "init_groups (j_dp_list rl t d) r (py_range t) cur s =
           Inr (recorded r cur (map (grid_col rl (nat t) (nat d)) [0..<nat t]),
                register_all ''nccl'' (map (grid_col rl (nat t) (nat d)) [0..<nat t]) s)"
  using init_groups_ok [of "py_range t" "j_dp_list rl t d" "\<lambda>j. grid_col rl (nat t) (nat d) (nat j)" r cur s]
    cols_ok [OF assms]
  by (simp add: map_nat_py_range)

lemma cpu_rows:
  assumes "d * t = int (length rl)"
  shows "cpu_groups (i_tp_list rl t) (py_range d) s =
           Inr (register_all ''gloo'' (map (grid_row rl (nat t)) [0..<nat d]) s)"
  using cpu_groups_ok [of "py_range d" "i_tp_list rl t" "\<lambda>i. grid_row rl (nat t) (nat i)" s]
    rows_ok [OF assms]
  by (simp add: map_nat_py_range)

lemma cpu_cols:
  assumes "d * t = int (length rl)"
  shows "cpu_groups (j_dp_list rl t d) (py_range t) s =
           Inr (register_all ''gloo'' (map (grid_col rl (nat t) (nat d)) [0..<nat t]) s)"
  using cpu_groups_ok [of "py_range t" "j_dp_list rl t d" "\<lambda>j. grid_col rl (nat t) (nat d) (nat j)" s]
    cols_ok [OF assms]
  by (simp add: map_nat_py_range)

lemma ProcessGroup_init_value:
  assumes "is_initialized rt"
      and "resolve_degrees (int (length (init_rank_list rt ranks))) tp_degree dp_degree = Inr (d, t)"
  shows "ProcessGroup_init rt rk ranks tp_degree dp_degree s =
     Inr (Initialized
           \<lparr>self_rank = init_rank rt rk,
            self_rank_list = init_rank_list rt ranks,
            self_world_size = int (length (init_rank_list rt ranks)),
            self_dp_degree = d, self_tp_degree = t,
            self_tp_rank_list =
              recorded (init_rank rt rk) None
                (map (grid_row (init_rank_list rt ranks) (nat t)) [0..<nat d]),
            self_dp_rank_list =
              recorded (init_rank rt rk) None
                (map (grid_col (init_rank_list rt ranks) (nat t) (nat d)) [0..<nat t]),
            self_has_cpu_groups = False\<rparr>,
          register_all ''nccl'' (grid_groups (init_rank_list rt ranks) (nat t) (nat d)) s)"
proof -
  have prod: "d * t = int (length (init_rank_list rt ranks))"
    by (rule resolve_degrees_product [OF assms(2)])
  show ?thesis
    using assms
    by (simp add: ProcessGroup_init_def Let_def init_rows [OF prod] init_cols [OF prod]
        grid_groups_def register_all_append)
qed

lemma ProcessGroup_init_error:
  assumes "is_initialized rt"
      and "resolve_degrees (int (length (init_rank_list rt ranks))) tp_degree dp_degree = Inl e"
  shows "ProcessGroup_init rt rk ranks tp_degree dp_degree s = Inl e"
  using assms by (simp add: ProcessGroup_init_def Let_def)

lemma set_cpu_groups_value:
  assumes "self_dp_degree a * self_tp_degree a = int (length (self_rank_list a))"
      and "\<not> self_has_cpu_groups a"
  shows "set_cpu_groups (Initialized a) s =
     Inr (Initialized (a\<lparr>self_has_cpu_groups := True\<rparr>),
          register_all ''gloo''
            (grid_groups (self_rank_list a) (nat (self_tp_degree a)) (nat (self_dp_degree a))) s)"
  using assms(2)
  by (simp add: set_cpu_groups_def cpu_rows [OF assms(1)] cpu_cols [OF assms(1)]
      grid_groups_def register_all_append)


lemma ProcessGroup_init_InitializedD:
  assumes "ProcessGroup_init rt rk ranks tp_degree dp_degree s = Inr (Initialized a, s')"
  shows "is_initialized rt"
    and "resolve_degrees (int (length (init_rank_list rt ranks))) tp_degree dp_degree
           = Inr (self_dp_degree a, self_tp_degree a)"
    and "self_rank a = init_rank rt rk"
    and "self_rank_list a = init_rank_list rt ranks"
    and "self_world_size a = int (length (init_rank_list rt ranks))"
    and "self_tp_rank_list a =
           recorded (init_rank rt rk) None
             (map (grid_row (init_rank_list rt ranks) (nat (self_tp_degree a)))
                [0..<nat (self_dp_degree a)])"
    and "self_dp_rank_list a =
           recorded (init_rank rt rk) None
             (map (grid_col (init_rank_list rt ranks) (nat (self_tp_degree a)) (nat (self_dp_degree a)))
                [0..<nat (self_tp_degree a)])"
    and "\<not> self_has_cpu_groups a"
    and "s' = register_all ''nccl''
                (grid_groups (init_rank_list rt ranks) (nat (self_tp_degree a)) (nat (self_dp_degree a))) s"
proof -
  show init: "is_initialized rt"
    using assms by (auto simp: ProcessGroup_init_def split: if_splits)
  obtain d t where res: "resolve_degrees (int (length (init_rank_list rt ranks))) tp_degree dp_degree
                           = Inr (d, t)"
  proof (cases "resolve_degrees (int (length (init_rank_list rt ranks))) tp_degree dp_degree")
    case (Inl e)
    then show ?thesis using assms ProcessGroup_init_error [OF init Inl, of rk s] by simp
  next
    case (Inr p)
    then show ?thesis using that by (cases p) simp
  qed
  have val: "Inr (Initialized a, s') = Inr (Initialized
           \<lparr>self_rank = init_rank rt rk,
            self_rank_list = init_rank_list rt ranks,
            self_world_size = int (length (init_rank_list rt ranks)),
            self_dp_degree = d, self_tp_degree = t,
            self_tp_rank_list =
              recorded (init_rank rt rk) None
                (map (grid_row (init_rank_list rt ranks) (nat t)) [0..<nat d]),
            self_dp_rank_list =
              recorded (init_rank rt rk) None
                (map (grid_col (init_rank_list rt ranks) (nat t) (nat d)) [0..<nat t]),
            self_has_cpu_groups = False\<rparr>,
          register_all ''nccl'' (grid_groups (init_rank_list rt ranks) (nat t) (nat d)) s)"
    using assms ProcessGroup_init_value [OF init res, of rk s] by simp
  then have a: "a = \<lparr>self_rank = init_rank rt rk,
            self_rank_list = init_rank_list rt ranks,
            self_world_size = int (length (init_rank_list rt ranks)),
            self_dp_degree = d, self_tp_degree = t,
            self_tp_rank_list =
              recorded (init_rank rt rk) None
                (map (grid_row (init_rank_list rt ranks) (nat t)) [0..<nat d]),
            self_dp_rank_list =
              recorded (init_rank rt rk) None
                (map (grid_col (init_rank_list rt ranks) (nat t) (nat d)) [0..<nat t]),
            self_has_cpu_groups = False\<rparr>"
    and s': "s' = register_all ''nccl'' (grid_groups (init_rank_list rt ranks) (nat t) (nat d)) s"
    by simp_all
  show "resolve_degrees (int (length (init_rank_list rt ranks))) tp_degree dp_degree
           = Inr (self_dp_degree a, self_tp_degree a)"
    using res by (simp add: a)
  show "self_rank a = init_rank rt rk" by (simp add: a)
  show "self_rank_list a = init_rank_list rt ranks" by (simp add: a)
  show "self_world_size a = int (length (init_rank_list rt ranks))" by (simp add: a)
  show "self_tp_rank_list a =
           recorded (init_rank rt rk) None
             (map (grid_row (init_rank_list rt ranks) (nat (self_tp_degree a)))
                [0..<nat (self_dp_degree a)])" by (simp add: a)
  show "self_dp_rank_list a =
           recorded (init_rank rt rk) None
             (map (grid_col (init_rank_list rt ranks) (nat (self_tp_degree a)) (nat (self_dp_degree a)))
                [0..<nat (self_tp_degree a)])" by (simp add: a)
  show "\<not> self_has_cpu_groups a" by (simp add: a)
  show "s' = register_all ''nccl''
                (grid_groups (init_rank_list rt ranks) (nat (self_tp_degree a)) (nat (self_dp_degree a))) s"
    by (simp add: a s')
qed

lemma grid_dims:
  assumes "d * t = int n"
  shows "nat d * nat t = n \<or> (nat d = 0 \<and> nat t = 0)"
proof (cases "0 < d")
  case True
  show ?thesis
  proof (cases "0 < t")
    case True
    have "int (nat d * nat t) = d * t" using True \<open>0 < d\<close> by simp
    then show ?thesis using assms by linarith
  next
    case False
    have "d * t \<le> 0" using False \<open>0 < d\<close> by (simp add: mult_le_0_iff)
    then have "n = 0" using assms by simp
    moreover have "nat t = 0" using False by simp
    ultimately show ?thesis by simp
  qed
next
  case False
  then have d0: "nat d = 0" by simp
  show ?thesis
  proof (cases "0 < t")
    case True
    have "d * t \<le> 0" using False True by (simp add: mult_le_0_iff)
    then have "n = 0" using assms by simp
    then show ?thesis using d0 by simp
  next
    case False
    then show ?thesis using d0 by simp
  qed
qed

lemma grid_row_subset:
  assumes "D * T = length rl" "i < D"
  shows "set (grid_row rl T i) \<subseteq> set rl"
proof
  fix x assume "x \<in> set (grid_row rl T i)"
  then obtain j where j: "j < T" "x = rl ! (i * T + j)" by (auto simp: grid_row_def)
  have "i * T + j < D * T" using assms(2) j(1) by (rule index_in_grid)
  then show "x \<in> set rl" using assms(1) j(2) by simp
qed

lemma grid_col_subset:
  assumes "D * T = length rl" "j < T"
  shows "set (grid_col rl T D j) \<subseteq> set rl"
proof
  fix x assume "x \<in> set (grid_col rl T D j)"
  then obtain i where i: "i < D" "x = rl ! (i * T + j)" by (auto simp: grid_col_def)
  have "i * T + j < D * T" using i(1) assms(2) by (rule index_in_grid)
  then show "x \<in> set rl" using assms(1) i(2) by simp
qed

lemma recorded_none:
  "(\<And>l. l \<in> set ls \<Longrightarrow> r \<notin> set l) \<Longrightarrow> recorded r cur ls = cur"
  by (induction ls arbitrary: cur) (simp_all add: recorded_def)

lemma recorded_rows_outside:
  assumes "d * t = int (length rl)" "r \<notin> set rl"
  shows "recorded r None (map (grid_row rl (nat t)) [0..<nat d]) = None"
proof (rule recorded_none)
  fix l assume "l \<in> set (map (grid_row rl (nat t)) [0..<nat d])"
  then obtain i where i: "i < nat d" "l = grid_row rl (nat t) i" by auto
  from grid_dims [OF assms(1)] i(1) have "nat d * nat t = length rl" by auto
  from grid_row_subset [OF this i(1)] assms(2) i(2) show "r \<notin> set l" by auto
qed

lemma recorded_cols_outside:
  assumes "d * t = int (length rl)" "r \<notin> set rl"
  shows "recorded r None (map (grid_col rl (nat t) (nat d)) [0..<nat t]) = None"
proof (rule recorded_none)
  fix l assume "l \<in> set (map (grid_col rl (nat t) (nat d)) [0..<nat t])"
  then obtain j where j: "j < nat t" "l = grid_col rl (nat t) (nat d) j" by auto
  from grid_dims [OF assms(1)] j(1) have "nat d * nat t = length rl" by auto
  from grid_col_subset [OF this j(1)] assms(2) j(2) show "r \<notin> set l" by auto
qed

lemma resolve_neither:
  "resolve_degrees ws None None = Inr (ws, 1)"
  by (simp add: resolve_degrees_def)

lemma resolve_only_dp:
  "z = None \<or> z = Some 0 \<Longrightarrow> d \<noteq> 0 \<Longrightarrow>
   resolve_degrees ws z (Some d) = (if ws mod d = 0 then Inr (d, ws div d) else Inl AssertionError)"
  by (auto simp: resolve_degrees_def truthy_def)

lemma resolve_only_tp:
  "z = None \<or> z = Some 0 \<Longrightarrow> t \<noteq> 0 \<Longrightarrow>
   resolve_degrees ws (Some t) z = (if ws mod t = 0 then Inr (ws div t, t) else Inl AssertionError)"
  by (auto simp: resolve_degrees_def truthy_def)

lemma resolve_both:
  "d \<noteq> 0 \<Longrightarrow> t \<noteq> 0 \<Longrightarrow>
   resolve_degrees ws (Some t) (Some d) = (if d * t = ws then Inr (d, t) else Inl AssertionError)"
  by (auto simp: resolve_degrees_def truthy_def)

lemma ProcessGroup_init_degrees:
  assumes "is_initialized rt"
      and "resolve_degrees (int (length (init_rank_list rt ranks))) tp_degree dp_degree = Inr (d, t)"
  shows "\<exists>a s'. ProcessGroup_init rt rk ranks tp_degree dp_degree s = Inr (Initialized a, s') \<and>
           self_dp_degree a = d \<and> self_tp_degree a = t"
  unfolding ProcessGroup_init_value [OF assms] by simp

lemma init_rank_list_same_world:
  "get_world_size rt1 = get_world_size rt2 \<Longrightarrow> init_rank_list rt1 ranks = init_rank_list rt2 ranks"
  by (simp add: init_rank_list_def split: option.splits)


lemma grid_row_take_drop:
  assumes "D * T = length rl" "i < D"
  shows "grid_row rl T i = take T (drop (i * T) rl)"
proof (rule nth_equalityI)
  have "Suc i * T \<le> D * T" using assms(2) by (intro mult_le_mono1) simp
  then have le: "i * T + T \<le> length rl" using assms(1) by simp
  then show len: "length (grid_row rl T i) = length (take T (drop (i * T) rl))"
    by (simp add: grid_row_def)
  fix j assume "j < length (grid_row rl T i)"
  then have j: "j < T" by (simp add: grid_row_def)
  then show "grid_row rl T i ! j = take T (drop (i * T) rl) ! j"
    using le by (simp add: grid_row_def)
qed

lemma position_div:
  assumes "j < (T::nat)"
  shows "(i * T + j) div T = i" and "(i * T + j) mod T = j"
  using assms by simp_all

lemma position_row_less:
  assumes "p < D * (T::nat)"
  shows "p div T < D" and "p mod T < T"
proof -
  have T: "0 < T" using assms by (cases T) simp_all
  show "p div T < D" using assms T by (simp add: div_less_iff_less_mult)
  show "p mod T < T" using T by simp
qed

lemma in_grid_row_iff:
  assumes "D * T = length rl" "distinct rl" "i < D" "p < length rl"
  shows "rl ! p \<in> set (grid_row rl T i) \<longleftrightarrow> p div T = i"
proof
  assume "rl ! p \<in> set (grid_row rl T i)"
  then obtain j where j: "j < T" "rl ! (i * T + j) = rl ! p" by (auto simp: grid_row_def)
  have "i * T + j < D * T" using assms(3) j(1) by (rule index_in_grid)
  then have "i * T + j < length rl" using assms(1) by simp
  with j(2) assms(2,4) have "i * T + j = p" by (simp add: nth_eq_iff_index_eq)
  then show "p div T = i" using position_div(1) [OF j(1), of i] by simp
next
  assume i: "p div T = i"
  have "p mod T < T" using assms(1,4) position_row_less(2) [of p D T] by simp
  moreover have "i * T + p mod T = p" using i div_mult_mod_eq [of p T] by simp
  ultimately have "p mod T \<in> set [0..<T]" and "rl ! p = rl ! (i * T + p mod T)" by simp_all
  then show "rl ! p \<in> set (grid_row rl T i)"
    unfolding grid_row_def set_map by (rule_tac image_eqI [where x = "p mod T"])
qed

lemma in_grid_col_iff:
  assumes "D * T = length rl" "distinct rl" "j < T" "p < length rl"
  shows "rl ! p \<in> set (grid_col rl T D j) \<longleftrightarrow> p mod T = j"
proof
  assume "rl ! p \<in> set (grid_col rl T D j)"
  then obtain i where i: "i < D" "rl ! (i * T + j) = rl ! p" by (auto simp: grid_col_def)
  have "i * T + j < D * T" using i(1) assms(3) by (rule index_in_grid)
  then have "i * T + j < length rl" using assms(1) by simp
  with i(2) assms(2,4) have "i * T + j = p" by (simp add: nth_eq_iff_index_eq)
  then show "p mod T = j" using position_div(2) [OF assms(3), of i] by simp
next
  assume j: "p mod T = j"
  have "p div T < D" using assms(1,4) position_row_less(1) [of p D T] by simp
  moreover have "p div T * T + j = p" using j div_mult_mod_eq [of p T] by simp
  ultimately have "p div T \<in> set [0..<D]" and "rl ! p = rl ! (p div T * T + j)" by simp_all
  then show "rl ! p \<in> set (grid_col rl T D j)"
    unfolding grid_col_def set_map by (rule_tac image_eqI [where x = "p div T"])
qed

lemma exactly_one_row:
  assumes "D * T = length rl" "distinct rl" "r \<in> set rl"
  shows "\<exists>!i. i < D \<and> r \<in> set (grid_row rl T i)"
proof -
  from assms(3) obtain p where p: "p < length rl" "rl ! p = r" by (auto simp: in_set_conv_nth)
  have lt: "p div T < D" using assms(1) p(1) position_row_less(1) [of p D T] by simp
  show ?thesis
  proof (rule ex1I [where a = "p div T"])
    show "p div T < D \<and> r \<in> set (grid_row rl T (p div T))"
      using lt in_grid_row_iff [OF assms(1,2) lt p(1)] p(2) by simp
  next
    fix i assume "i < D \<and> r \<in> set (grid_row rl T i)"
    then show "i = p div T"
      using in_grid_row_iff [OF assms(1,2) _ p(1), of i] p(2) by simp
  qed
qed

lemma exactly_one_col:
  assumes "D * T = length rl" "distinct rl" "r \<in> set rl"
  shows "\<exists>!j. j < T \<and> r \<in> set (grid_col rl T D j)"
proof -
  from assms(3) obtain p where p: "p < length rl" "rl ! p = r" by (auto simp: in_set_conv_nth)
  have lt: "p mod T < T" using assms(1) p(1) position_row_less(2) [of p D T] by simp
  show ?thesis
  proof (rule ex1I [where a = "p mod T"])
    show "p mod T < T \<and> r \<in> set (grid_col rl T D (p mod T))"
      using lt in_grid_col_iff [OF assms(1,2) lt p(1)] p(2) by simp
  next
    fix j assume "j < T \<and> r \<in> set (grid_col rl T D j)"
    then show "j = p mod T"
      using in_grid_col_iff [OF assms(1,2) _ p(1), of j] p(2) by simp
  qed
qed

lemma union_rows:
  assumes "D * T = length rl" "distinct rl"
  shows "(\<Union>i\<in>{..<D}. set (grid_row rl T i)) = set rl"
proof
  show "(\<Union>i\<in>{..<D}. set (grid_row rl T i)) \<subseteq> set rl"
    using grid_row_subset [OF assms(1)] by auto
  show "set rl \<subseteq> (\<Union>i\<in>{..<D}. set (grid_row rl T i))"
  proof
    fix r assume "r \<in> set rl"
    from exactly_one_row [OF assms this] show "r \<in> (\<Union>i\<in>{..<D}. set (grid_row rl T i))" by auto
  qed
qed

lemma union_cols:
  assumes "D * T = length rl" "distinct rl"
  shows "(\<Union>j\<in>{..<T}. set (grid_col rl T D j)) = set rl"
proof
  show "(\<Union>j\<in>{..<T}. set (grid_col rl T D j)) \<subseteq> set rl"
    using grid_col_subset [OF assms(1)] by auto
  show "set rl \<subseteq> (\<Union>j\<in>{..<T}. set (grid_col rl T D j))"
  proof
    fix r assume "r \<in> set rl"
    from exactly_one_col [OF assms this] show "r \<in> (\<Union>j\<in>{..<T}. set (grid_col rl T D j))" by auto
  qed
qed

lemma recorded_unique:
  assumes "l0 \<in> set ls" "r \<in> set l0" "\<And>l. l \<in> set ls \<Longrightarrow> r \<in> set l \<Longrightarrow> l = l0"
  shows "recorded r cur ls = Some l0"
  using assms
proof (induction ls arbitrary: cur)
  case Nil
  then show ?case by simp
next
  case (Cons l ls)
  have step: "recorded r cur (l # ls) = recorded r (if r \<in> set l then Some l else cur) ls"
    by (rule recorded_Cons)
  have tail: "l' = l0" if "l' \<in> set ls" "r \<in> set l'" for l'
    using Cons.prems(3) [of l'] that by simp
  show ?case
  proof (cases "l0 \<in> set ls")
    case True
    from Cons.IH [OF True Cons.prems(2) tail]
    have "recorded r (if r \<in> set l then Some l else cur) ls = Some l0" .
    with step show ?thesis by simp
  next
    case False
    with Cons.prems(1) have l: "l = l0" by simp
    have none: "r \<notin> set l'" if "l' \<in> set ls" for l'
    proof
      assume "r \<in> set l'"
      with tail [OF that] have "l' = l0" .
      with False that show False by simp
    qed
    have "recorded r (Some l0) ls = Some l0"
      by (rule recorded_none [OF none])
    with step l Cons.prems(2) show ?thesis by simp
  qed
qed

lemma recorded_row:
  assumes "D * T = length rl" "distinct rl" "i < D" "r \<in> set (grid_row rl T i)"
  shows "recorded r None (map (grid_row rl T) [0..<D]) = Some (grid_row rl T i)"
proof (rule recorded_unique)
  show "grid_row rl T i \<in> set (map (grid_row rl T) [0..<D])" using assms(3) by simp
  show "r \<in> set (grid_row rl T i)" by (rule assms(4))
  fix l assume "l \<in> set (map (grid_row rl T) [0..<D])" and rl: "r \<in> set l"
  then obtain i' where i': "i' < D" "l = grid_row rl T i'" by auto
  have "r \<in> set rl" using grid_row_subset [OF assms(1,3)] assms(4) by auto
  from exactly_one_row [OF assms(1,2) this] i' rl assms(3,4) have "i' = i" by auto
  then show "l = grid_row rl T i" using i'(2) by simp
qed

lemma recorded_col:
  assumes "D * T = length rl" "distinct rl" "j < T" "r \<in> set (grid_col rl T D j)"
  shows "recorded r None (map (grid_col rl T D) [0..<T]) = Some (grid_col rl T D j)"
proof (rule recorded_unique)
  show "grid_col rl T D j \<in> set (map (grid_col rl T D) [0..<T])" using assms(3) by simp
  show "r \<in> set (grid_col rl T D j)" by (rule assms(4))
  fix l assume "l \<in> set (map (grid_col rl T D) [0..<T])" and rl: "r \<in> set l"
  then obtain j' where j': "j' < T" "l = grid_col rl T D j'" by auto
  have "r \<in> set rl" using grid_col_subset [OF assms(1,3)] assms(4) by auto
  from exactly_one_col [OF assms(1,2) this] j' rl assms(3,4) have "j' = j" by auto
  then show "l = grid_col rl T D j" using j'(2) by simp
qed

lemma sorted_map_int_upt: "sorted (map int [0..<n])"
  by (induction n) (auto simp: sorted_append)

lemma init_rank_list_sorted: "sorted (init_rank_list rt ranks)"
  by (simp add: init_rank_list_def py_range_def sorted_map_int_upt split: option.splits)

lemma init_rank_list_distinct:
  "(case ranks of None \<Rightarrow> True | Some l \<Rightarrow> distinct l) \<Longrightarrow> distinct (init_rank_list rt ranks)"
  by (auto simp: init_rank_list_def py_range_def distinct_map inj_on_def split: option.splits)

lemma constructed_dims:
  assumes "ProcessGroup_init rt rk ranks tp_degree dp_degree s = Inr (Initialized a, s')"
      and "0 \<le> self_tp_degree a" "0 \<le> self_dp_degree a"
  shows "nat (self_dp_degree a) * nat (self_tp_degree a) = length (self_rank_list a)"
proof -
  have "self_dp_degree a * self_tp_degree a = int (length (self_rank_list a))"
    using resolve_degrees_product [OF ProcessGroup_init_InitializedD(2) [OF assms(1)]]
      ProcessGroup_init_InitializedD(4) [OF assms(1)] by simp
  then have "int (nat (self_dp_degree a) * nat (self_tp_degree a)) = int (length (self_rank_list a))"
    using assms(2,3) by simp
  then show ?thesis by (simp only: of_nat_eq_iff)
qed

lemma register_all_new_group_calls:
  "new_group_calls (register_all b ls s) =
     new_group_calls s @ map (\<lambda>l. (l, b)) (uncached b (map fst (dict s)) ls)"
proof (induction ls arbitrary: s)
  case Nil
  then show ?case by (simp add: register_all_def)
next
  case (Cons l ls)
  have "new_group_calls (register_all b (l # ls) s)
          = new_group_calls (snd (get l b s)) @
            map (\<lambda>l. (l, b)) (uncached b (map fst (dict (snd (get l b s)))) ls)"
    unfolding register_all_Cons by (rule Cons.IH)
  then show ?case
    unfolding get_new_group_calls get_keys by simp
qed

lemma uncached_all:
  "distinct ls \<Longrightarrow> list_all (\<lambda>l. (b, l) \<notin> set keys) ls \<Longrightarrow> uncached b keys ls = ls"
proof (induction ls arbitrary: keys)
  case Nil
  then show ?case by simp
next
  case (Cons l ls)
  have "list_all (\<lambda>l'. (b, l') \<notin> set (keys @ [(b, l)])) ls"
    using Cons.prems by (auto simp: list_all_iff)
  with Cons.IH [of "keys @ [(b, l)]"] Cons.prems show ?case by simp
qed


section \<open>Sharding and gathering: lemmas\<close>

lemma ceil_div_covers:
  assumes "0 < G"
  shows "N \<le> ceil_div N G * G"
proof -
  have "N + G - 1 = (N + G - 1) div G * G + (N + G - 1) mod G"
    by (simp add: div_mult_mod_eq)
  moreover have "(N + G - 1) mod G \<le> G - 1" using assms by (simp add: less_Suc_eq_le [symmetric])
  ultimately have "N + G - 1 \<le> (N + G - 1) div G * G + (G - 1)" by linarith
  then show ?thesis using assms by (simp add: ceil_div_def)
qed

lemma ceil_div_least:
  assumes "0 < G" "N \<le> c * G"
  shows "ceil_div N G \<le> c"
proof -
  have "N + G - 1 < c * G + G" using assms by linarith
  then have "N + G - 1 < Suc c * G" by simp
  then have "(N + G - 1) div G < Suc c" using assms(1) by (simp add: div_less_iff_less_mult)
  then show ?thesis by (simp add: ceil_div_def)
qed

lemma concat_slices:
  "n * c \<le> length xs \<Longrightarrow> concat (map (\<lambda>i. take c (drop (i * c) xs)) [0..<n]) = take (n * c) xs"
proof (induction n)
  case 0
  then show ?case by simp
next
  case (Suc n)
  then have "concat (map (\<lambda>i. take c (drop (i * c) xs)) [0..<n]) = take (n * c) xs" by simp
  then have "concat (map (\<lambda>i. take c (drop (i * c) xs)) [0..<Suc n])
               = take (n * c) xs @ take c (drop (n * c) xs)" by simp
  also have "\<dots> = take (n * c + c) xs" by (simp add: take_add)
  finally show ?case by (simp add: add.commute)
qed

lemma get_shard_data:
  "t_data (get_shard t k G) =
     take (ceil_div (numel t) G)
       (drop (k * ceil_div (numel t) G)
          (t_data t @ replicate (ceil_div (numel t) G * G - numel t) 0))"
  by (simp add: get_shard_def numel_def Let_def)

lemma get_shard_shape:
  "t_shape (get_shard t k G) = [numel (get_shard t k G)]"
  unfolding get_shard_def numel_def Let_def by (simp only: Tensor.select_convs)

lemma get_shard_dtype: "t_dtype (get_shard t k G) = t_dtype t"
  by (simp add: get_shard_def Let_def)

lemma slice_length:
  assumes "length p = c * G" "k < G"
  shows "length (take c (drop (k * c) p)) = c"
proof -
  have "Suc k * c \<le> G * c" using assms(2) by (intro mult_le_mono1) simp
  then have "k * c + c \<le> length p" using assms(1) by (simp add: mult.commute)
  then show ?thesis by simp
qed

lemma slice_nth:
  assumes "length p = c * G" "k < G" "i < c"
  shows "take c (drop (k * c) p) ! i = p ! (k * c + i)"
proof -
  have "Suc k * c \<le> G * c" using assms(2) by (intro mult_le_mono1) simp
  then have "k * c + c \<le> length p" using assms(1) by (simp add: mult.commute)
  then show ?thesis using assms(3) by simp
qed

lemma padded_length:
  assumes "0 < G"
  shows "length (t_data t @ replicate (ceil_div (numel t) G * G - numel t) (0::'a::zero))
           = ceil_div (numel t) G * G"
  using ceil_div_covers [OF assms, of "numel t"] by (simp add: numel_def)

lemma get_shard_numel:
  assumes "k < G"
  shows "numel (get_shard t k G) = ceil_div (numel t) G"
proof -
  define c where "c = ceil_div (numel t) G"
  define p where "p = t_data t @ replicate (c * G - numel t) 0"
  have G: "0 < G" using assms by simp
  have len: "length p = c * G" unfolding p_def c_def by (rule padded_length [OF G])
  have "t_data (get_shard t k G) = take c (drop (k * c) p)"
    unfolding p_def c_def by (rule get_shard_data)
  then show ?thesis
    using slice_length [OF len assms] by (simp add: numel_def c_def)
qed

lemma get_shard_nth:
  assumes "k < G" "i < ceil_div (numel t) G"
  shows "t_data (get_shard t k G) ! i =
           (if k * ceil_div (numel t) G + i < numel t
            then t_data t ! (k * ceil_div (numel t) G + i) else 0)"
proof -
  define c where "c = ceil_div (numel t) G"
  define p where "p = t_data t @ replicate (c * G - numel t) 0"
  have G: "0 < G" using assms by simp
  have i: "i < c" using assms(2) by (simp add: c_def)
  have len: "length p = c * G" unfolding p_def c_def by (rule padded_length [OF G])
  have "Suc k * c \<le> G * c" using assms(1) by (intro mult_le_mono1) simp
  then have lt: "k * c + i < c * G" using i by (simp add: mult.commute)
  have "t_data (get_shard t k G) = take c (drop (k * c) p)"
    unfolding p_def c_def by (rule get_shard_data)
  then have "t_data (get_shard t k G) ! i = p ! (k * c + i)"
    using slice_nth [OF len assms(1) i] by simp
  also have "\<dots> = (if k * c + i < numel t then t_data t ! (k * c + i) else 0)"
  proof (cases "k * c + i < numel t")
    case True
    then show ?thesis by (simp add: p_def nth_append numel_def)
  next
    case False
    have "k * c + i - numel t < c * G - numel t" using False lt by linarith
    then show ?thesis using False by (simp add: p_def nth_append numel_def)
  qed
  finally show ?thesis by (simp add: c_def)
qed

lemma concat_shards:
  assumes "0 < G"
  shows "concat (map (\<lambda>i. t_data (get_shard t i G)) [0..<G])
           = t_data t @ replicate (ceil_div (numel t) G * G - numel t) 0"
proof -
  define c where "c = ceil_div (numel t) G"
  define p where "p = t_data t @ replicate (c * G - numel t) 0"
  have len: "length p = c * G" unfolding p_def c_def by (rule padded_length [OF assms])
  have "\<And>i. t_data (get_shard t i G) = take c (drop (i * c) p)"
    unfolding p_def c_def by (rule get_shard_data)
  then have "concat (map (\<lambda>i. t_data (get_shard t i G)) [0..<G])
          = concat (map (\<lambda>i. take c (drop (i * c) p)) [0..<G])"
    by simp
  also have "\<dots> = take (G * c) p"
    by (rule concat_slices) (simp add: len mult.commute)
  also have "\<dots> = p" using len by (simp add: mult.commute)
  finally show ?thesis by (simp add: p_def c_def)
qed

lemma buffer_list_length: "length (buffer_list sp) = sp_world_size sp"
  by (simp add: buffer_list_def Let_def)

lemma buffer_list_nth:
  "i < sp_world_size sp \<Longrightarrow>
   buffer_list sp ! i =
     (if i = sp_local_rank sp then sp_param_payload sp else zeros (numel (sp_param_payload sp)))"
  by (simp add: buffer_list_def Let_def)

lemma buffer_list_local:
  assumes "sp_local_rank sp < sp_world_size sp"
  shows "py_getitem (buffer_list sp) (int (sp_local_rank sp)) = Inr (sp_param_payload sp)"
  using py_getitem_nat [of "sp_local_rank sp" "buffer_list sp"] assms
  by (simp add: buffer_list_length buffer_list_nth)

lemma collect_local:
  assumes "sp_local_rank sp < sp_world_size sp"
  shows "collect peers sp =
     (case all_gather peers (sp_local_rank sp) (buffer_list sp) (sp_param_payload sp) of
        Inl e \<Rightarrow> Inl e
      | Inr buffers \<Rightarrow> cat buffers)"
  by (simp add: collect_def buffer_list_local [OF assms])

lemma all_gather_InrD:
  assumes "all_gather peers k bl t = Inr bufs"
  shows "bufs = map (\<lambda>i. if i = k then t else peers i) [0..<length bl]"
    and "list_all (same_meta t) bl"
    and "list_all (\<lambda>i. i = k \<or> same_meta t (peers i)) [0..<length bl]"
  using assms by (auto simp: all_gather_def split: if_splits)

lemma all_gather_same_meta:
  assumes "all_gather peers k bl t = Inr bufs" "b \<in> set bufs"
  shows "same_meta t b"
proof -
  from assms(2) all_gather_InrD(1) [OF assms(1)]
  obtain i where i: "i < length bl" "b = (if i = k then t else peers i)" by auto
  from all_gather_InrD(3) [OF assms(1)] i(1) have "i = k \<or> same_meta t (peers i)"
    by (simp add: list_all_iff)
  then show ?thesis using i(2) by (auto simp: same_meta_def)
qed

lemma cat_uniform:
  assumes "bufs \<noteq> []" "\<And>b. b \<in> set bufs \<Longrightarrow> same_meta t b" "t_shape t = n # rest"
  shows "cat bufs = Inr \<lparr>t_data = concat (map t_data bufs), t_shape = (length bufs * n) # rest,
                        t_dtype = t_dtype t\<rparr>"
proof -
  from assms(1) obtain b bs where b: "bufs = b # bs" by (cases bufs) auto
  then have "same_meta t b" using assms(2) by simp
  then have "t_shape b = n # rest" "t_dtype b = t_dtype t"
    using assms(3) by (simp_all add: same_meta_def)
  then show ?thesis unfolding b by (simp add: cat_def)
qed

lemma collect_value:
  assumes "sp_local_rank sp < sp_world_size sp"
      and "all_gather peers (sp_local_rank sp) (buffer_list sp) (sp_param_payload sp) = Inr bufs"
      and "t_shape (sp_param_payload sp) = n # rest"
  shows "collect peers sp =
           Inr \<lparr>t_data = concat (map t_data bufs), t_shape = (sp_world_size sp * n) # rest,
                t_dtype = t_dtype (sp_param_payload sp)\<rparr>"
proof -
  have len: "length bufs = sp_world_size sp"
    using all_gather_InrD(1) [OF assms(2)] by (simp add: buffer_list_length)
  then have ne: "bufs \<noteq> []" using assms(1) by auto
  have "cat bufs = Inr \<lparr>t_data = concat (map t_data bufs), t_shape = (length bufs * n) # rest,
                        t_dtype = t_dtype (sp_param_payload sp)\<rparr>"
    by (rule cat_uniform [OF ne all_gather_same_meta [OF assms(2)] assms(3)])
  then show ?thesis by (simp add: collect_local [OF assms(1)] assms(2) len)
qed

lemma collect_error:
  assumes "sp_local_rank sp < sp_world_size sp"
      and "all_gather peers (sp_local_rank sp) (buffer_list sp) (sp_param_payload sp) = Inl e"
  shows "collect peers sp = Inl e"
  by (simp add: collect_local [OF assms(1)] assms(2))

lemma gather_value:
  assumes "sp_is_shared sp"
      and "collect peers sp = Inr \<lparr>t_data = xs, t_shape = [m], t_dtype = d\<rparr>"
      and "sp_origin_numel sp \<le> m" and "length xs = m"
      and "prod_list (sp_origin_shape sp) = sp_origin_numel sp"
  shows "gather peers sp =
           Inr (sp\<lparr>sp_param_payload :=
                      \<lparr>t_data = take (sp_origin_numel sp) xs,
                       t_shape = sp_origin_shape sp, t_dtype = d\<rparr>,
                    sp_is_shared := False\<rparr>)"
  using assms by (simp add: gather_def narrow_def view_def numel_def)

lemma gather_short:
  assumes "sp_is_shared sp"
      and "collect peers sp = Inr \<lparr>t_data = xs, t_shape = [m], t_dtype = d\<rparr>"
      and "m < sp_origin_numel sp"
  shows "gather peers sp = Inl RuntimeError"
  using assms by (simp add: gather_def narrow_def)

lemma gather_collect_error:
  assumes "sp_is_shared sp" and "collect peers sp = Inl e"
  shows "gather peers sp = Inl e"
  using assms by (simp add: gather_def)

lemma shard_fields:
  assumes "\<not> sp_is_shared sp"
  shows "sp_local_rank (shard sp) = sp_local_rank sp"
    and "sp_world_size (shard sp) = sp_world_size sp"
    and "sp_param_payload (shard sp)
           = get_shard (sp_param_payload sp) (sp_local_rank sp) (sp_world_size sp)"
    and "sp_is_shared (shard sp)"
    and "sp_origin_numel (shard sp) = sp_origin_numel sp"
    and "sp_origin_shape (shard sp) = sp_origin_shape sp"
  using assms by (simp_all add: shard_def)

lemma shard_then_gather:
  assumes "\<not> sp_is_shared sp" and "sp_local_rank sp < sp_world_size sp"
      and "wf_Tensor (sp_param_payload sp)"
      and "sp_origin_numel sp = numel (sp_param_payload sp)"
      and "sp_origin_shape sp = t_shape (sp_param_payload sp)"
      and "\<And>i. peers i = get_shard (sp_param_payload sp) i (sp_world_size sp)"
  shows "gather peers (shard sp) =
           (if sp_world_size sp = 1 \<or> t_dtype (sp_param_payload sp) = Float32
            then Inr sp else Inl RuntimeError)"
proof -
  define t where "t = sp_param_payload sp"
  define k where "k = sp_local_rank sp"
  define G where "G = sp_world_size sp"
  define c where "c = ceil_div (numel t) G"
  define s1 where "s1 = shard sp"
  have kG: "k < G" using assms(2) by (simp add: k_def G_def)
  have G: "0 < G" using kG by simp
  note f = shard_fields [OF assms(1), folded t_def k_def G_def s1_def]
  have sh_numel: "numel (get_shard t i G) = c" if "i < G" for i
    unfolding c_def by (rule get_shard_numel [OF that])
  have sh_shape: "t_shape (get_shard t i G) = [c]" if "i < G" for i
    unfolding get_shard_shape by (simp add: sh_numel [OF that])
  have sh_dtype: "t_dtype (get_shard t i G) = t_dtype t" for i
    by (rule get_shard_dtype)
  have kG1: "sp_local_rank s1 < sp_world_size s1" using kG by (simp add: f)
  have shared: "sp_is_shared s1" by (rule f(4))
  show ?thesis
  proof (cases "G = 1 \<or> t_dtype t = Float32")
    case True
    have zeros_ok: "same_meta (get_shard t k G) (zeros c)" if "i < G" "i \<noteq> k" for i
    proof -
      from that kG have "G \<noteq> 1" by auto
      with True have "t_dtype t = Float32" by simp
      then show ?thesis by (simp add: same_meta_def zeros_def sh_shape [OF kG] sh_dtype)
    qed
    have local: "list_all (same_meta (sp_param_payload s1)) (buffer_list s1)"
      unfolding list_all_length buffer_list_length
    proof (intro allI impI)
      fix i assume "i < sp_world_size s1"
      then have i: "i < G" by (simp add: f)
      show "same_meta (sp_param_payload s1) (buffer_list s1 ! i)"
      proof (cases "i = k")
        case True
        then show ?thesis using i by (simp add: buffer_list_nth f same_meta_def)
      next
        case False
        then show ?thesis
          using i zeros_ok [OF i False] by (simp add: buffer_list_nth f sh_numel [OF kG])
      qed
    qed
    have others: "list_all (\<lambda>i. i = sp_local_rank s1 \<or> same_meta (sp_param_payload s1) (peers i))
                    [0..<length (buffer_list s1)]"
      unfolding list_all_iff buffer_list_length
    proof
      fix i assume "i \<in> set [0..<sp_world_size s1]"
      then have i: "i < G" by (simp add: f)
      have "same_meta (get_shard t k G) (get_shard t i G)"
        by (simp add: same_meta_def sh_shape [OF i] sh_shape [OF kG] sh_dtype)
      then show "i = sp_local_rank s1 \<or> same_meta (sp_param_payload s1) (peers i)"
        by (simp add: f assms(6) [folded t_def G_def])
    qed
    have "(\<lambda>i. if i = k then get_shard t k G else peers i) = (\<lambda>i. get_shard t i G)"
      by (auto simp: assms(6) [folded t_def G_def])
    then have ag: "all_gather peers (sp_local_rank s1) (buffer_list s1) (sp_param_payload s1)
                 = Inr (map (\<lambda>i. get_shard t i G) [0..<G])"
      using local others by (simp add: all_gather_def buffer_list_length f)
    define p where "p = t_data t @ replicate (c * G - numel t) 0"
    have data: "concat (map (t_data \<circ> (\<lambda>i. get_shard t i G)) [0..<G]) = p"
      unfolding p_def c_def using concat_shards [OF G, of t] by (simp add: comp_def)
    have plen: "length p = G * c"
      unfolding p_def c_def using padded_length [OF G, of t] by (simp add: mult.commute)
    have col: "collect peers s1 = Inr \<lparr>t_data = p, t_shape = [G * c], t_dtype = t_dtype t\<rparr>"
      using collect_value [OF kG1 ag, of c "[]"]
      by (simp add: f sh_shape [OF kG] sh_dtype data)
    have n: "numel t \<le> G * c"
      unfolding c_def using ceil_div_covers [OF G, of "numel t"] by (simp add: mult.commute)
    have wf: "prod_list (sp_origin_shape s1) = sp_origin_numel s1"
      using assms(3,4,5) by (simp add: f wf_Tensor_def numel_def)
    have prefix: "take (numel t) p = t_data t" by (simp add: p_def numel_def)
    have "gather peers s1 =
            Inr (s1\<lparr>sp_param_payload :=
                      \<lparr>t_data = take (sp_origin_numel s1) p,
                       t_shape = sp_origin_shape s1, t_dtype = t_dtype t\<rparr>,
                    sp_is_shared := False\<rparr>)"
      by (rule gather_value [OF shared col _ plen wf]) (simp add: f assms(4) [folded t_def] n)
    also have "\<dots> = Inr sp"
      using assms(1,4,5)
      by (simp add: f prefix [unfolded t_def] t_def s1_def shard_def)
    finally show ?thesis using True by (simp add: s1_def G_def t_def)
  next
    case False
    then have G2: "G \<noteq> 1" and dt: "t_dtype t \<noteq> Float32" by simp_all
    obtain i where i: "i < G" "i \<noteq> k"
    proof (cases "k = 0")
      case True
      with G2 G have "1 < G" by simp
      with True show ?thesis using that [of 1] by simp
    next
      case False
      with kG show ?thesis using that [of 0] by simp
    qed
    have "buffer_list s1 ! i = zeros c"
      using i by (simp add: buffer_list_nth f sh_numel [OF kG])
    moreover have "\<not> same_meta (sp_param_payload s1) (zeros c)"
      using dt by (simp add: same_meta_def zeros_def f sh_dtype)
    ultimately have "\<not> list_all (same_meta (sp_param_payload s1)) (buffer_list s1)"
      using i(1) by (auto simp: list_all_length buffer_list_length f)
    then have "all_gather peers (sp_local_rank s1) (buffer_list s1) (sp_param_payload s1)
                 = Inl RuntimeError"
      by (simp add: all_gather_def)
    from gather_collect_error [OF shared collect_error [OF kG1 this]]
    show ?thesis using False by (simp add: s1_def G_def t_def)
  qed
qed


section \<open>Claims about the cache\<close>

text \<open>
  C2, as stated, fails: \<open>get\<close> does not sort the rank list.  The lists \<open>[0, 1]\<close> and
  \<open>[1, 0]\<close> hold the same distinct ranks, yet the second call, on the cache the first
  call left, creates a second group and returns another handle.
\<close>

theorem C2_order_counterexample:
  "set [0, 1 :: int] = set [1, 0] \<and> distinct [0, 1 :: int] \<and> distinct [1, 0 :: int] \<and>
   fst (get [1, 0] ''nccl'' (snd (get [0, 1] ''nccl'' PyTorchProcessGroupDict_init)))
     \<noteq> fst (get [0, 1] ''nccl'' PyTorchProcessGroupDict_init)"
  by (auto simp: get_def new_group_def PyTorchProcessGroupDict_init_def Let_def)

text \<open>
  C2, amended: the key of the cache is the backend together with the rank list in the
  order it was passed.  On every cache state that satisfies the invariant of the
  cache, which every state reached from the empty cache does, and whatever calls of
  \<open>get\<close> are made in between, a later call of \<open>get\<close> returns the handle of an earlier
  call exactly when it is made with the same backend and with the same rank list in
  the same order; so the same ranks under another backend, and the same ranks in
  another order, give another handle, and an entry once made is never lost.
\<close>

theorem C2_same_key_same_handle:
  "cache_inv s \<Longrightarrow>
   (fst (get rl' b' (get_sequence calls (snd (get rl b s)))) = fst (get rl b s)
      \<longleftrightarrow> b' = b \<and> rl' = rl)"
  using get_later [of s rl' b' calls rl b] by simp

theorem C2_same_key_same_handle_witness:
  "cache_inv PyTorchProcessGroupDict_init \<and>
   fst (get [0, 1] ''gloo''
          (get_sequence [([2, 3], ''nccl''), ([1, 0], ''nccl'')]
             (snd (get [0, 1] ''nccl'' PyTorchProcessGroupDict_init))))
     \<noteq> fst (get [0, 1] ''nccl'' PyTorchProcessGroupDict_init) \<and>
   fst (get [0, 1] ''nccl''
          (get_sequence [([2, 3], ''nccl''), ([1, 0], ''nccl'')]
             (snd (get [0, 1] ''nccl'' PyTorchProcessGroupDict_init))))
     = fst (get [0, 1] ''nccl'' PyTorchProcessGroupDict_init)"
  using C2_same_key_same_handle [OF cache_inv_init,
      of "[0, 1]" "''gloo''" "[([2, 3], ''nccl''), ([1, 0], ''nccl'')]" "[0, 1]" "''nccl''"]
    C2_same_key_same_handle [OF cache_inv_init,
      of "[0, 1]" "''nccl''" "[([2, 3], ''nccl''), ([1, 0], ''nccl'')]" "[0, 1]" "''nccl''"]
    cache_inv_init
  by simp

section \<open>Claims about the construction of the grid\<close>

text \<open>
  C7: when the distributed runtime is not initialized, \<open>__init__\<close> returns at once:
  the instance has \<open>is_init = False\<close> and no rank data, the cache is untouched, and
  every accessor (rank, rank list, world size, row and column membership, local
  ranks, row and column sizes, the four group accessors and the flag of the CPU
  groups) raises on it.  The error is Python's \<open>AttributeError\<close>, raised by the read
  of an attribute that was never set; it is the error meant by \<open>NotInitialized\<close>.
\<close>

theorem C7_uninitialized_accessors_fail:
  "\<not> is_initialized rt \<Longrightarrow>
   ProcessGroup_init rt rk ranks tp_degree dp_degree s = Inr (Uninitialized, s) \<and>
   \<not> is_init Uninitialized \<and>
   rank Uninitialized = Inl AttributeError \<and>
   ranks_in_group Uninitialized = Inl AttributeError \<and>
   world_size Uninitialized = Inl AttributeError \<and>
   tp_rank_list Uninitialized = Inl AttributeError \<and>
   dp_rank_list Uninitialized = Inl AttributeError \<and>
   get_ranks_in_tp Uninitialized = Inl AttributeError \<and>
   get_ranks_in_dp Uninitialized = Inl AttributeError \<and>
   tp_local_rank Uninitialized = Inl AttributeError \<and>
   dp_local_rank Uninitialized = Inl AttributeError \<and>
   tp_world_size Uninitialized = Inl AttributeError \<and>
   dp_world_size Uninitialized = Inl AttributeError \<and>
   tp_process_group Uninitialized s' = Inl AttributeError \<and>
   dp_process_group Uninitialized s' = Inl AttributeError \<and>
   cpu_tp_process_group Uninitialized s' = Inl AttributeError \<and>
   cpu_dp_process_group Uninitialized s' = Inl AttributeError \<and>
   has_cpu_groups Uninitialized = Inl AttributeError"
  by (simp add: ProcessGroup_init_def is_init_def attr_def rank_def ranks_in_group_def
      world_size_def tp_rank_list_def dp_rank_list_def get_ranks_in_tp_def get_ranks_in_dp_def
      tp_local_rank_def dp_local_rank_def tp_world_size_def dp_world_size_def
      tp_process_group_def dp_process_group_def cpu_tp_process_group_def
      cpu_dp_process_group_def has_cpu_groups_def)

theorem C7_uninitialized_accessors_fail_witness:
  "\<not> is_initialized \<lparr>is_initialized = False, get_rank = 0, get_world_size = 0\<rparr> \<and>
   ProcessGroup_init \<lparr>is_initialized = False, get_rank = 0, get_world_size = 0\<rparr>
     (Some 1) (Some [0, 1, 2, 3]) (Some 2) (Some 2) PyTorchProcessGroupDict_init
     = Inr (Uninitialized, PyTorchProcessGroupDict_init) \<and>
   rank Uninitialized = Inl AttributeError \<and>
   tp_process_group Uninitialized PyTorchProcessGroupDict_init = Inl AttributeError"
  using C7_uninitialized_accessors_fail
    [of "\<lparr>is_initialized = False, get_rank = 0, get_world_size = 0\<rparr>"
        "Some 1" "Some [0, 1, 2, 3]" "Some 2" "Some 2"
        PyTorchProcessGroupDict_init PyTorchProcessGroupDict_init]
  by simp

text \<open>
  C4: how the construction resolves the degrees, for degrees that are omitted
  (\<^verbatim>\<open>None\<close>) or positive.  If neither is given, \<open>dp_degree\<close> is the world size and
  \<open>tp_degree\<close> is \<open>1\<close>.  If exactly one is given, the other is the world size divided
  by the given one, and the construction fails with an assertion error when the given
  degree does not divide the world size.  If both are given, the construction fails
  with an assertion error unless their product is the world size.  In every case in
  which the degrees resolve, the construction succeeds.
\<close>

theorem C4_degree_resolution:
  assumes "is_initialized rt"
  shows
    "(\<exists>a s'. ProcessGroup_init rt rk ranks None None s = Inr (Initialized a, s') \<and>
         self_dp_degree a = int (length (init_rank_list rt ranks)) \<and> self_tp_degree a = 1) \<and>
     (0 < d \<longrightarrow>
        (if int (length (init_rank_list rt ranks)) mod d = 0
         then \<exists>a s'. ProcessGroup_init rt rk ranks None (Some d) s = Inr (Initialized a, s') \<and>
                self_dp_degree a = d \<and>
                self_tp_degree a = int (length (init_rank_list rt ranks)) div d
         else ProcessGroup_init rt rk ranks None (Some d) s = Inl AssertionError)) \<and>
     (0 < t \<longrightarrow>
        (if int (length (init_rank_list rt ranks)) mod t = 0
         then \<exists>a s'. ProcessGroup_init rt rk ranks (Some t) None s = Inr (Initialized a, s') \<and>
                self_tp_degree a = t \<and>
                self_dp_degree a = int (length (init_rank_list rt ranks)) div t
         else ProcessGroup_init rt rk ranks (Some t) None s = Inl AssertionError)) \<and>
     (0 < d \<and> 0 < t \<longrightarrow>
        (if d * t = int (length (init_rank_list rt ranks))
         then \<exists>a s'. ProcessGroup_init rt rk ranks (Some t) (Some d) s = Inr (Initialized a, s') \<and>
                self_dp_degree a = d \<and> self_tp_degree a = t
         else ProcessGroup_init rt rk ranks (Some t) (Some d) s = Inl AssertionError))"
proof -
  let ?ws = "int (length (init_rank_list rt ranks))"
  have c1: "\<exists>a s'. ProcessGroup_init rt rk ranks None None s = Inr (Initialized a, s') \<and>
         self_dp_degree a = ?ws \<and> self_tp_degree a = 1"
    by (rule ProcessGroup_init_degrees [OF assms resolve_neither])
  have c2: "if ?ws mod d = 0
         then \<exists>a s'. ProcessGroup_init rt rk ranks None (Some d) s = Inr (Initialized a, s') \<and>
                self_dp_degree a = d \<and> self_tp_degree a = ?ws div d
         else ProcessGroup_init rt rk ranks None (Some d) s = Inl AssertionError"
    if "0 < d"
  proof (cases "?ws mod d = 0")
    case True
    then have "resolve_degrees ?ws None (Some d) = Inr (d, ?ws div d)"
      using resolve_only_dp [of None d ?ws] that by simp
    from ProcessGroup_init_degrees [OF assms this] True show ?thesis by simp
  next
    case False
    then have "resolve_degrees ?ws None (Some d) = Inl AssertionError"
      using resolve_only_dp [of None d ?ws] that by simp
    from ProcessGroup_init_error [OF assms this] False show ?thesis by simp
  qed
  have c3: "if ?ws mod t = 0
         then \<exists>a s'. ProcessGroup_init rt rk ranks (Some t) None s = Inr (Initialized a, s') \<and>
                self_tp_degree a = t \<and> self_dp_degree a = ?ws div t
         else ProcessGroup_init rt rk ranks (Some t) None s = Inl AssertionError"
    if "0 < t"
  proof (cases "?ws mod t = 0")
    case True
    then have "resolve_degrees ?ws (Some t) None = Inr (?ws div t, t)"
      using resolve_only_tp [of None t ?ws] that by simp
    from ProcessGroup_init_degrees [OF assms this, of rk s] True show ?thesis by auto
  next
    case False
    then have "resolve_degrees ?ws (Some t) None = Inl AssertionError"
      using resolve_only_tp [of None t ?ws] that by simp
    from ProcessGroup_init_error [OF assms this] False show ?thesis by simp
  qed
  have c4: "if d * t = ?ws
         then \<exists>a s'. ProcessGroup_init rt rk ranks (Some t) (Some d) s = Inr (Initialized a, s') \<and>
                self_dp_degree a = d \<and> self_tp_degree a = t
         else ProcessGroup_init rt rk ranks (Some t) (Some d) s = Inl AssertionError"
    if "0 < d \<and> 0 < t"
  proof (cases "d * t = ?ws")
    case True
    then have "resolve_degrees ?ws (Some t) (Some d) = Inr (d, t)"
      using resolve_both [of d t ?ws] that by simp
    from ProcessGroup_init_degrees [OF assms this] True show ?thesis by simp
  next
    case False
    then have "resolve_degrees ?ws (Some t) (Some d) = Inl AssertionError"
      using resolve_both [of d t ?ws] that by simp
    from ProcessGroup_init_error [OF assms this] False show ?thesis by simp
  qed
  from c1 c2 c3 c4 show ?thesis by blast
qed

theorem C4_degree_resolution_witness:
  "is_initialized \<lparr>is_initialized = True, get_rank = 0, get_world_size = 6\<rparr> \<and>
   (\<exists>a s'. ProcessGroup_init \<lparr>is_initialized = True, get_rank = 0, get_world_size = 6\<rparr>
              None None None (Some 2) PyTorchProcessGroupDict_init = Inr (Initialized a, s') \<and>
            self_dp_degree a = 2 \<and> self_tp_degree a = 3) \<and>
   ProcessGroup_init \<lparr>is_initialized = True, get_rank = 0, get_world_size = 6\<rparr>
     None None None (Some 4) PyTorchProcessGroupDict_init = Inl AssertionError \<and>
   ProcessGroup_init \<lparr>is_initialized = True, get_rank = 0, get_world_size = 6\<rparr>
     None None (Some 4) (Some 2) PyTorchProcessGroupDict_init = Inl AssertionError"
proof -
  let ?rt = "\<lparr>is_initialized = True, get_rank = 0, get_world_size = 6\<rparr>"
  have h: "is_initialized ?rt" by simp
  have ws: "int (length (init_rank_list ?rt None)) = 6"
    by (simp add: init_rank_list_def py_range_def)
  from C4_degree_resolution [OF h, where rk = None and ranks = None
      and s = PyTorchProcessGroupDict_init and d = 2 and t = 4]
    C4_degree_resolution [OF h, where rk = None and ranks = None
      and s = PyTorchProcessGroupDict_init and d = 4 and t = 4]
  show ?thesis unfolding ws using h by simp
qed

text \<open>
  C3: two constructions on the same cache state with the same rank list and the
  same degree arguments, but on two ranks (the rank passed or reported by the runtime
  differs), either raise the same error or leave the same cache state.  With \<open>gs\<close> the
  rows in the order \<open>0, \<dots>, dp_degree - 1\<close> followed by the columns in the order
  \<open>0, \<dots>, tp_degree - 1\<close>, read off the rank list and the degrees alone, that state
  is the one reached by passing \<open>gs\<close> to \<open>get\<close> under \<open>'nccl'\<close>, and in both runs the
  \<^verbatim>\<open>new_group\<close> calls issued are the same: the lists of \<open>gs\<close>, in this order, that the
  cache does not hold yet, each once.  When the lists of \<open>gs\<close> are pairwise different
  and none is in the cache, these are all rows and then all columns.
\<close>

theorem C3_group_creation_order_independent_of_rank:
  assumes "is_initialized rt1" "is_initialized rt2" "get_world_size rt1 = get_world_size rt2"
  shows "map_sum id snd (ProcessGroup_init rt1 rk1 ranks tp_degree dp_degree s)
           = map_sum id snd (ProcessGroup_init rt2 rk2 ranks tp_degree dp_degree s) \<and>
         (\<forall>d t gs.
            resolve_degrees (int (length (init_rank_list rt1 ranks))) tp_degree dp_degree
              = Inr (d, t) \<and>
            gs = map (grid_row (init_rank_list rt1 ranks) (nat t)) [0..<nat d] @
                 map (grid_col (init_rank_list rt1 ranks) (nat t) (nat d)) [0..<nat t] \<longrightarrow>
            map_sum id snd (ProcessGroup_init rt1 rk1 ranks tp_degree dp_degree s)
              = Inr (register_all ''nccl'' gs s) \<and>
            map_sum id (\<lambda>r. new_group_calls (snd r))
                (ProcessGroup_init rt1 rk1 ranks tp_degree dp_degree s)
              = Inr (new_group_calls s @
                     map (\<lambda>l. (l, ''nccl'')) (uncached ''nccl'' (map fst (dict s)) gs)) \<and>
            map_sum id (\<lambda>r. new_group_calls (snd r))
                (ProcessGroup_init rt2 rk2 ranks tp_degree dp_degree s)
              = Inr (new_group_calls s @
                     map (\<lambda>l. (l, ''nccl'')) (uncached ''nccl'' (map fst (dict s)) gs)) \<and>
            (distinct gs \<and> list_all (\<lambda>l. (''nccl'', l) \<notin> set (map fst (dict s))) gs \<longrightarrow>
               map_sum id (\<lambda>r. new_group_calls (snd r))
                   (ProcessGroup_init rt1 rk1 ranks tp_degree dp_degree s)
                 = Inr (new_group_calls s @ map (\<lambda>l. (l, ''nccl'')) gs)))"
proof -
  let ?rl = "init_rank_list rt1 ranks"
  have same: "init_rank_list rt2 ranks = ?rl"
    using init_rank_list_same_world [OF assms(3), of ranks] by simp
  show ?thesis
  proof (cases "resolve_degrees (int (length ?rl)) tp_degree dp_degree")
    case (Inl e)
    have "ProcessGroup_init rt1 rk1 ranks tp_degree dp_degree s = Inl e"
      by (rule ProcessGroup_init_error [OF assms(1) Inl])
    moreover have "ProcessGroup_init rt2 rk2 ranks tp_degree dp_degree s = Inl e"
      by (rule ProcessGroup_init_error [OF assms(2)]) (simp add: same Inl)
    ultimately show ?thesis using Inl by simp
  next
    case (Inr p)
    obtain d t where p: "p = (d, t)" by (cases p)
    define gs where "gs = map (grid_row ?rl (nat t)) [0..<nat d] @
                          map (grid_col ?rl (nat t) (nat d)) [0..<nat t]"
    have r1: "resolve_degrees (int (length ?rl)) tp_degree dp_degree = Inr (d, t)"
      using Inr p by simp
    have r2: "resolve_degrees (int (length (init_rank_list rt2 ranks))) tp_degree dp_degree = Inr (d, t)"
      using r1 same by simp
    have gg: "grid_groups ?rl (nat t) (nat d) = gs" by (simp add: grid_groups_def gs_def)
    have run1: "map_sum id snd (ProcessGroup_init rt1 rk1 ranks tp_degree dp_degree s)
                  = Inr (register_all ''nccl'' gs s)"
      unfolding ProcessGroup_init_value [OF assms(1) r1] by (simp add: gg)
    have run2: "map_sum id snd (ProcessGroup_init rt2 rk2 ranks tp_degree dp_degree s)
                  = Inr (register_all ''nccl'' gs s)"
      unfolding ProcessGroup_init_value [OF assms(2) r2] by (simp add: same gg)
    have calls: "new_group_calls (register_all ''nccl'' gs s)
                   = new_group_calls s @
                     map (\<lambda>l. (l, ''nccl'')) (uncached ''nccl'' (map fst (dict s)) gs)"
      by (rule register_all_new_group_calls)
    have t1: "map_sum id (\<lambda>r. new_group_calls (snd r))
                (ProcessGroup_init rt1 rk1 ranks tp_degree dp_degree s)
              = Inr (new_group_calls s @
                     map (\<lambda>l. (l, ''nccl'')) (uncached ''nccl'' (map fst (dict s)) gs))"
      unfolding ProcessGroup_init_value [OF assms(1) r1] by (simp add: gg calls)
    have t2: "map_sum id (\<lambda>r. new_group_calls (snd r))
                (ProcessGroup_init rt2 rk2 ranks tp_degree dp_degree s)
              = Inr (new_group_calls s @
                     map (\<lambda>l. (l, ''nccl'')) (uncached ''nccl'' (map fst (dict s)) gs))"
      unfolding ProcessGroup_init_value [OF assms(2) r2] by (simp add: same gg calls)
    have t3: "map_sum id (\<lambda>r. new_group_calls (snd r))
                   (ProcessGroup_init rt1 rk1 ranks tp_degree dp_degree s)
                 = Inr (new_group_calls s @ map (\<lambda>l. (l, ''nccl'')) gs)"
      if "distinct gs \<and> list_all (\<lambda>l. (''nccl'', l) \<notin> set (map fst (dict s))) gs"
      using t1 uncached_all [of gs "''nccl''" "map fst (dict s)"] that by simp
    from run1 run2 t1 t2 t3 r1 show ?thesis
      unfolding gs_def [symmetric] by (simp add: gs_def)
  qed
qed

theorem C3_group_creation_order_independent_of_rank_witness:
  "is_initialized \<lparr>is_initialized = True, get_rank = 0, get_world_size = 4\<rparr> \<and>
   is_initialized \<lparr>is_initialized = True, get_rank = 3, get_world_size = 4\<rparr> \<and>
   map_sum id snd
     (ProcessGroup_init \<lparr>is_initialized = True, get_rank = 0, get_world_size = 4\<rparr>
        None None (Some 2) (Some 2) PyTorchProcessGroupDict_init)
   = map_sum id snd
     (ProcessGroup_init \<lparr>is_initialized = True, get_rank = 3, get_world_size = 4\<rparr>
        None None (Some 2) (Some 2) PyTorchProcessGroupDict_init) \<and>
   map_sum id (\<lambda>r. new_group_calls (snd r))
     (ProcessGroup_init \<lparr>is_initialized = True, get_rank = 0, get_world_size = 4\<rparr>
        None None (Some 2) (Some 2) PyTorchProcessGroupDict_init)
   = Inr [([0, 1], ''nccl''), ([2, 3], ''nccl''), ([0, 2], ''nccl''), ([1, 3], ''nccl'')] \<and>
   map_sum id (\<lambda>r. new_group_calls (snd r))
     (ProcessGroup_init \<lparr>is_initialized = True, get_rank = 3, get_world_size = 4\<rparr>
        None None (Some 2) (Some 2) PyTorchProcessGroupDict_init)
   = Inr [([0, 1], ''nccl''), ([2, 3], ''nccl''), ([0, 2], ''nccl''), ([1, 3], ''nccl'')]"
proof -
  let ?rt1 = "\<lparr>is_initialized = True, get_rank = 0, get_world_size = 4\<rparr>"
  let ?rt2 = "\<lparr>is_initialized = True, get_rank = 3, get_world_size = 4\<rparr>"
  let ?s = PyTorchProcessGroupDict_init
  let ?gs = "[[0, 1], [2, 3], [0, 2], [1, 3 :: int]]"
  have h1: "is_initialized ?rt1" and h2: "is_initialized ?rt2"
    and h3: "get_world_size ?rt1 = get_world_size ?rt2" by simp_all
  have rl: "init_rank_list ?rt1 None = [0, 1, 2, 3]"
    by (simp add: init_rank_list_def py_range_def upt_conv_Cons)
  have res: "resolve_degrees (int (length (init_rank_list ?rt1 None))) (Some 2) (Some 2) = Inr (2, 2)"
    unfolding rl by (simp add: resolve_degrees_def truthy_def)
  have gs: "?gs = map (grid_row (init_rank_list ?rt1 None) (nat 2)) [0..<nat 2] @
                 map (grid_col (init_rank_list ?rt1 None) (nat 2) (nat 2)) [0..<nat 2]"
    unfolding rl by code_simp
  have unc: "uncached ''nccl'' (map fst (dict ?s)) ?gs = ?gs" by code_simp
  have emp: "new_group_calls ?s = []" by (simp add: PyTorchProcessGroupDict_init_def)
  note c = C3_group_creation_order_independent_of_rank [OF h1 h2 h3, of None None "Some 2" "Some 2"
      ?s None]
  from c have eq: "map_sum id snd (ProcessGroup_init ?rt1 None None (Some 2) (Some 2) ?s)
           = map_sum id snd (ProcessGroup_init ?rt2 None None (Some 2) (Some 2) ?s)"
    by (rule conjunct1)
  from c [THEN conjunct2, rule_format, of 2 2 ?gs] res gs
  have t1: "map_sum id (\<lambda>r. new_group_calls (snd r))
                (ProcessGroup_init ?rt1 None None (Some 2) (Some 2) ?s)
              = Inr (new_group_calls ?s @
                     map (\<lambda>l. (l, ''nccl'')) (uncached ''nccl'' (map fst (dict ?s)) ?gs))"
    and t2: "map_sum id (\<lambda>r. new_group_calls (snd r))
                (ProcessGroup_init ?rt2 None None (Some 2) (Some 2) ?s)
              = Inr (new_group_calls ?s @
                     map (\<lambda>l. (l, ''nccl'')) (uncached ''nccl'' (map fst (dict ?s)) ?gs))"
    by blast+
  have t1': "map_sum id (\<lambda>r. new_group_calls (snd r))
                (ProcessGroup_init ?rt1 None None (Some 2) (Some 2) ?s)
              = Inr [([0, 1], ''nccl''), ([2, 3], ''nccl''), ([0, 2], ''nccl''), ([1, 3], ''nccl'')]"
    using t1 unfolding unc emp by simp
  have t2': "map_sum id (\<lambda>r. new_group_calls (snd r))
                (ProcessGroup_init ?rt2 None None (Some 2) (Some 2) ?s)
              = Inr [([0, 1], ''nccl''), ([2, 3], ''nccl''), ([0, 2], ''nccl''), ([1, 3], ''nccl'')]"
    using t2 unfolding unc emp by simp
  from h1 h2 eq t1' t2' show ?thesis by (intro conjI)
qed

text \<open>
  C5: for every constructed instance whose degrees are positive (the proof needs
  only that they are not negative) and whose rank list was given without duplicates
  (or taken from the runtime), the rank list is sorted and distinct and has
  \<open>dp_degree * tp_degree\<close> elements; the list built for row \<open>i\<close> is the slice
  \<open>[i * tp_degree, i * tp_degree + tp_degree)\<close> of the rank list and the list built
  for column \<open>j\<close> holds the positions \<open>i * tp_degree + j\<close> for \<open>i < dp_degree\<close>; these
  rows and then these columns are what the construction registers; every rank of the
  rank list is in exactly one row and in exactly one column; the rows together, and
  the columns together, make up the rank list; and \<open>_tp_rank_list\<close> and
  \<open>_dp_rank_list\<close> are the row and the column that contain the rank of the process.
\<close>

theorem C5_row_major_grid:
  assumes "ProcessGroup_init rt rk ranks tp_degree dp_degree s = Inr (Initialized a, s')"
      and "case ranks of None \<Rightarrow> True | Some l \<Rightarrow> distinct l"
      and "0 \<le> self_tp_degree a" and "0 \<le> self_dp_degree a"
  shows "sorted (self_rank_list a) \<and> distinct (self_rank_list a) \<and>
    self_dp_degree a * self_tp_degree a = int (length (self_rank_list a)) \<and>
    s' = register_all ''nccl''
           (grid_groups (self_rank_list a) (nat (self_tp_degree a)) (nat (self_dp_degree a))) s \<and>
    (\<forall>i<nat (self_dp_degree a).
       i_tp_list (self_rank_list a) (self_tp_degree a) (int i)
         = Inr (grid_row (self_rank_list a) (nat (self_tp_degree a)) i) \<and>
       grid_row (self_rank_list a) (nat (self_tp_degree a)) i
         = take (nat (self_tp_degree a)) (drop (i * nat (self_tp_degree a)) (self_rank_list a))) \<and>
    (\<forall>j<nat (self_tp_degree a).
       j_dp_list (self_rank_list a) (self_tp_degree a) (self_dp_degree a) (int j)
         = Inr (grid_col (self_rank_list a) (nat (self_tp_degree a)) (nat (self_dp_degree a)) j)) \<and>
    (\<forall>r\<in>set (self_rank_list a).
       (\<exists>!i. i < nat (self_dp_degree a) \<and>
              r \<in> set (grid_row (self_rank_list a) (nat (self_tp_degree a)) i)) \<and>
       (\<exists>!j. j < nat (self_tp_degree a) \<and>
              r \<in> set (grid_col (self_rank_list a) (nat (self_tp_degree a)) (nat (self_dp_degree a)) j))) \<and>
    (\<Union>i\<in>{..<nat (self_dp_degree a)}.
       set (grid_row (self_rank_list a) (nat (self_tp_degree a)) i)) = set (self_rank_list a) \<and>
    (\<Union>j\<in>{..<nat (self_tp_degree a)}.
       set (grid_col (self_rank_list a) (nat (self_tp_degree a)) (nat (self_dp_degree a)) j))
      = set (self_rank_list a) \<and>
    (\<forall>i<nat (self_dp_degree a).
       self_rank a \<in> set (grid_row (self_rank_list a) (nat (self_tp_degree a)) i) \<longrightarrow>
       self_tp_rank_list a = Some (grid_row (self_rank_list a) (nat (self_tp_degree a)) i)) \<and>
    (\<forall>j<nat (self_tp_degree a).
       self_rank a \<in> set (grid_col (self_rank_list a) (nat (self_tp_degree a)) (nat (self_dp_degree a)) j) \<longrightarrow>
       self_dp_rank_list a
         = Some (grid_col (self_rank_list a) (nat (self_tp_degree a)) (nat (self_dp_degree a)) j))"
proof -
  let ?rl = "self_rank_list a"
  let ?T = "nat (self_tp_degree a)"
  let ?D = "nat (self_dp_degree a)"
  note D = ProcessGroup_init_InitializedD [OF assms(1)]
  have rl: "?rl = init_rank_list rt ranks" by (rule D(4))
  have sorted: "sorted ?rl" unfolding rl by (rule init_rank_list_sorted)
  have dist: "distinct ?rl" unfolding rl by (rule init_rank_list_distinct [OF assms(2)])
  have prod: "self_dp_degree a * self_tp_degree a = int (length ?rl)"
    using resolve_degrees_product [OF D(2)] rl by simp
  have dims: "?D * ?T = length ?rl" by (rule constructed_dims [OF assms(1,3,4)])
  have cache: "s' = register_all ''nccl'' (grid_groups ?rl ?T ?D) s"
    using D(9) rl by simp
  have rows: "\<forall>i<?D. i_tp_list ?rl (self_tp_degree a) (int i) = Inr (grid_row ?rl ?T i) \<and>
                  grid_row ?rl ?T i = take ?T (drop (i * ?T) ?rl)"
    using i_tp_list_ok [OF prod] grid_row_take_drop [OF dims] by simp
  have cols: "\<forall>j<?T. j_dp_list ?rl (self_tp_degree a) (self_dp_degree a) (int j)
                  = Inr (grid_col ?rl ?T ?D j)"
    using j_dp_list_ok [OF prod] by simp
  have one: "\<forall>r\<in>set ?rl. (\<exists>!i. i < ?D \<and> r \<in> set (grid_row ?rl ?T i)) \<and>
                           (\<exists>!j. j < ?T \<and> r \<in> set (grid_col ?rl ?T ?D j))"
    using exactly_one_row [OF dims dist] exactly_one_col [OF dims dist] by simp
  have ur: "(\<Union>i\<in>{..<?D}. set (grid_row ?rl ?T i)) = set ?rl"
    by (rule union_rows [OF dims dist])
  have uc: "(\<Union>j\<in>{..<?T}. set (grid_col ?rl ?T ?D j)) = set ?rl"
    by (rule union_cols [OF dims dist])
  have rr: "\<forall>i<?D. self_rank a \<in> set (grid_row ?rl ?T i) \<longrightarrow>
                 self_tp_rank_list a = Some (grid_row ?rl ?T i)"
  proof (intro allI impI)
    fix i assume "i < ?D" "self_rank a \<in> set (grid_row ?rl ?T i)"
    from recorded_row [OF dims dist this] show "self_tp_rank_list a = Some (grid_row ?rl ?T i)"
      using D(6) D(3) rl by simp
  qed
  have rc: "\<forall>j<?T. self_rank a \<in> set (grid_col ?rl ?T ?D j) \<longrightarrow>
                 self_dp_rank_list a = Some (grid_col ?rl ?T ?D j)"
  proof (intro allI impI)
    fix j assume "j < ?T" "self_rank a \<in> set (grid_col ?rl ?T ?D j)"
    from recorded_col [OF dims dist this] show "self_dp_rank_list a = Some (grid_col ?rl ?T ?D j)"
      using D(7) D(3) rl by simp
  qed
  from sorted dist prod cache rows cols one ur uc rr rc show ?thesis
    by (intro conjI)
qed

theorem C5_row_major_grid_witness:
  "ProcessGroup_init \<lparr>is_initialized = True, get_rank = 0, get_world_size = 4\<rparr>
     (Some 1) (Some [3, 1, 0, 2]) (Some 2) (Some 2) PyTorchProcessGroupDict_init =
   Inr (Initialized
         \<lparr>self_rank = 1, self_rank_list = [0, 1, 2, 3], self_world_size = 4,
          self_dp_degree = 2, self_tp_degree = 2,
          self_tp_rank_list = Some [0, 1], self_dp_rank_list = Some [1, 3],
          self_has_cpu_groups = False\<rparr>,
        \<lparr>dict =
           [((''nccl'', [0, 1]), 0), ((''nccl'', [2, 3]), 1),
            ((''nccl'', [0, 2]), 2), ((''nccl'', [1, 3]), 3)],
         new_group_calls =
           [([0, 1], ''nccl''), ([2, 3], ''nccl''), ([0, 2], ''nccl''), ([1, 3], ''nccl'')]\<rparr>) \<and>
   distinct [3, 1, 0, 2 :: int] \<and>
   grid_row [0, 1, 2, 3] 2 0 = [0, 1] \<and> grid_row [0, 1, 2, 3] 2 1 = [2, 3] \<and>
   grid_col [0, 1, 2, 3] 2 2 0 = [0, 2] \<and> grid_col [0, 1, 2, 3] 2 2 1 = [1, 3] \<and>
   (\<Union>i\<in>{..<2}. set (grid_row [0, 1, 2, 3] 2 i)) = set [0, 1, 2, 3] \<and>
   (\<Union>j\<in>{..<2}. set (grid_col [0, 1, 2, 3] 2 2 j)) = set [0, 1, 2, 3]"
proof -
  let ?a = "\<lparr>self_rank = 1, self_rank_list = [0, 1, 2, 3], self_world_size = 4,
          self_dp_degree = 2, self_tp_degree = 2,
          self_tp_rank_list = Some [0, 1], self_dp_rank_list = Some [1, 3],
          self_has_cpu_groups = False\<rparr>"
  let ?s1 = "\<lparr>dict =
           [((''nccl'', [0, 1]), 0), ((''nccl'', [2, 3]), 1),
            ((''nccl'', [0, 2]), 2), ((''nccl'', [1, 3]), 3)],
         new_group_calls =
           [([0, 1], ''nccl''), ([2, 3], ''nccl''), ([0, 2], ''nccl''), ([1, 3], ''nccl'')]\<rparr>"
  have h: "ProcessGroup_init \<lparr>is_initialized = True, get_rank = 0, get_world_size = 4\<rparr>
     (Some 1) (Some [3, 1, 0, 2]) (Some 2) (Some 2) PyTorchProcessGroupDict_init
       = Inr (Initialized ?a, ?s1)"
    by code_simp
  have d: "case Some [3, 1, 0, 2 :: int] of None \<Rightarrow> True | Some l \<Rightarrow> distinct l" by simp
  have t: "0 \<le> self_tp_degree ?a" and dp: "0 \<le> self_dp_degree ?a" by simp_all
  note c = C5_row_major_grid [OF h d t dp]
  have "(\<Union>i\<in>{..<nat (self_dp_degree ?a)}.
           set (grid_row (self_rank_list ?a) (nat (self_tp_degree ?a)) i)) = set (self_rank_list ?a)"
    using c by blast
  then have ur: "(\<Union>i\<in>{..<2}. set (grid_row [0, 1, 2, 3] 2 i)) = set [0, 1, 2, 3]"
    by simp
  have "(\<Union>j\<in>{..<nat (self_tp_degree ?a)}.
           set (grid_col (self_rank_list ?a) (nat (self_tp_degree ?a)) (nat (self_dp_degree ?a)) j))
          = set (self_rank_list ?a)"
    using c by blast
  then have uc: "(\<Union>j\<in>{..<2}. set (grid_col [0, 1, 2, 3] 2 2 j)) = set [0, 1, 2, 3]"
    by simp
  have r0: "grid_row [0, 1, 2, 3] 2 0 = [0, 1]" and r1: "grid_row [0, 1, 2, 3] 2 1 = [2, 3]"
    and c0: "grid_col [0, 1, 2, 3] 2 2 0 = [0, 2]" and c1: "grid_col [0, 1, 2, 3] 2 2 1 = [1, 3]"
    by code_simp+
  from h ur uc r0 r1 c0 c1 show ?thesis by simp
qed

text \<open>
  C10: when the runtime is active and the degrees resolve, a rank that is not in
  the rank list does not make the construction fail: the instance is built, and its
  \<open>_tp_rank_list\<close> and \<open>_dp_rank_list\<close> are still \<open>None\<close>.  On that instance, before
  and after \<open>set_cpu_groups\<close>, the size accessors and the group accessors raise
  instead of returning a size or a group.
\<close>

theorem C10_rank_outside_world:
  assumes "is_initialized rt"
      and "init_rank rt rk \<notin> set (init_rank_list rt ranks)"
      and "resolve_degrees (int (length (init_rank_list rt ranks))) tp_degree dp_degree = Inr (d, t)"
  shows "\<exists>a s'. ProcessGroup_init rt rk ranks tp_degree dp_degree s = Inr (Initialized a, s') \<and>
           self_tp_rank_list a = None \<and> self_dp_rank_list a = None \<and>
           (\<forall>b c. tp_world_size (Initialized (a\<lparr>self_has_cpu_groups := b\<rparr>)) = Inl TypeError \<and>
                  dp_world_size (Initialized (a\<lparr>self_has_cpu_groups := b\<rparr>)) = Inl TypeError \<and>
                  tp_process_group (Initialized (a\<lparr>self_has_cpu_groups := b\<rparr>)) c = Inl TypeError \<and>
                  dp_process_group (Initialized (a\<lparr>self_has_cpu_groups := b\<rparr>)) c = Inl TypeError \<and>
                  cpu_tp_process_group (Initialized (a\<lparr>self_has_cpu_groups := b\<rparr>)) c
                    = Inl (if b then TypeError else AssertionError) \<and>
                  cpu_dp_process_group (Initialized (a\<lparr>self_has_cpu_groups := b\<rparr>)) c
                    = Inl (if b then TypeError else AssertionError))"
proof -
  have prod: "d * t = int (length (init_rank_list rt ranks))"
    by (rule resolve_degrees_product [OF assms(3)])
  show ?thesis
    unfolding ProcessGroup_init_value [OF assms(1) assms(3)]
    by (simp add: recorded_rows_outside [OF prod assms(2)] recorded_cols_outside [OF prod assms(2)]
        tp_world_size_def dp_world_size_def py_len_def tp_process_group_def dp_process_group_def
        cpu_tp_process_group_def cpu_dp_process_group_def get_optional_def)
qed

theorem C10_rank_outside_world_witness:
  "is_initialized \<lparr>is_initialized = True, get_rank = 0, get_world_size = 4\<rparr> \<and>
   init_rank \<lparr>is_initialized = True, get_rank = 0, get_world_size = 4\<rparr> (Some 7)
     \<notin> set (init_rank_list \<lparr>is_initialized = True, get_rank = 0, get_world_size = 4\<rparr>
              (Some [3, 1, 0, 2])) \<and>
   (\<exists>a s'. ProcessGroup_init \<lparr>is_initialized = True, get_rank = 0, get_world_size = 4\<rparr>
              (Some 7) (Some [3, 1, 0, 2]) (Some 2) (Some 2) PyTorchProcessGroupDict_init
              = Inr (Initialized a, s') \<and>
            self_tp_rank_list a = None \<and> self_dp_rank_list a = None \<and>
            tp_world_size (Initialized a) = Inl TypeError \<and>
            dp_process_group (Initialized a) s' = Inl TypeError)"
proof -
  let ?rt = "\<lparr>is_initialized = True, get_rank = 0, get_world_size = 4\<rparr>"
  have h1: "is_initialized ?rt" by simp
  have h2: "init_rank ?rt (Some 7) \<notin> set (init_rank_list ?rt (Some [3, 1, 0, 2]))"
    by (simp add: init_rank_def init_rank_list_def)
  have h3: "resolve_degrees (int (length (init_rank_list ?rt (Some [3, 1, 0, 2]))))
              (Some 2) (Some 2) = Inr (2, 2)"
    by (simp add: init_rank_list_def resolve_degrees_def truthy_def)
  from C10_rank_outside_world [OF h1 h2 h3, of PyTorchProcessGroupDict_init]
  obtain a s' where
    "ProcessGroup_init ?rt (Some 7) (Some [3, 1, 0, 2]) (Some 2) (Some 2)
       PyTorchProcessGroupDict_init = Inr (Initialized a, s')"
    "self_tp_rank_list a = None" "self_dp_rank_list a = None"
    "\<forall>b c. tp_world_size (Initialized (a\<lparr>self_has_cpu_groups := b\<rparr>)) = Inl TypeError \<and>
            dp_world_size (Initialized (a\<lparr>self_has_cpu_groups := b\<rparr>)) = Inl TypeError \<and>
            tp_process_group (Initialized (a\<lparr>self_has_cpu_groups := b\<rparr>)) c = Inl TypeError \<and>
            dp_process_group (Initialized (a\<lparr>self_has_cpu_groups := b\<rparr>)) c = Inl TypeError \<and>
            cpu_tp_process_group (Initialized (a\<lparr>self_has_cpu_groups := b\<rparr>)) c
              = Inl (if b then TypeError else AssertionError) \<and>
            cpu_dp_process_group (Initialized (a\<lparr>self_has_cpu_groups := b\<rparr>)) c
              = Inl (if b then TypeError else AssertionError)"
    by blast
  moreover from this(4) have
    "tp_world_size (Initialized (a\<lparr>self_has_cpu_groups := self_has_cpu_groups a\<rparr>)) = Inl TypeError"
    "dp_process_group (Initialized (a\<lparr>self_has_cpu_groups := self_has_cpu_groups a\<rparr>)) s' = Inl TypeError"
    by blast+
  ultimately show ?thesis using h1 h2 by auto
qed

text \<open>
  C9: on a constructed instance the first \<open>set_cpu_groups\<close> passes every row and
  then every column to \<open>get\<close> under \<open>'gloo'\<close> and sets the flag; on an instance whose
  flag is set it returns the instance and the cache as they are, whatever the state
  of the cache; so calling it twice gives what calling it once gives.
\<close>

theorem C9_set_cpu_groups_idempotent:
  assumes "ProcessGroup_init rt rk ranks tp_degree dp_degree s0 = Inr (Initialized a, s1)"
  shows "set_cpu_groups (Initialized a) s =
           Inr (Initialized (a\<lparr>self_has_cpu_groups := True\<rparr>),
                register_all ''gloo''
                  (grid_groups (self_rank_list a) (nat (self_tp_degree a)) (nat (self_dp_degree a))) s) \<and>
         has_cpu_groups (Initialized (a\<lparr>self_has_cpu_groups := True\<rparr>)) = Inr True \<and>
         set_cpu_groups (Initialized (a\<lparr>self_has_cpu_groups := True\<rparr>)) s'
           = Inr (Initialized (a\<lparr>self_has_cpu_groups := True\<rparr>), s') \<and>
         (case set_cpu_groups (Initialized a) s of
            Inl e \<Rightarrow> Inl e
          | Inr (pg, c) \<Rightarrow> set_cpu_groups pg c) = set_cpu_groups (Initialized a) s"
proof -
  note res = ProcessGroup_init_InitializedD(2) [OF assms]
    and rl = ProcessGroup_init_InitializedD(4) [OF assms]
    and flag = ProcessGroup_init_InitializedD(8) [OF assms]
  have prod: "self_dp_degree a * self_tp_degree a = int (length (self_rank_list a))"
    using resolve_degrees_product [OF res] rl by simp
  have first: "set_cpu_groups (Initialized a) s =
           Inr (Initialized (a\<lparr>self_has_cpu_groups := True\<rparr>),
                register_all ''gloo''
                  (grid_groups (self_rank_list a) (nat (self_tp_degree a)) (nat (self_dp_degree a))) s)"
    by (rule set_cpu_groups_value [OF prod flag])
  have second: "\<And>c. set_cpu_groups (Initialized (a\<lparr>self_has_cpu_groups := True\<rparr>)) c
           = Inr (Initialized (a\<lparr>self_has_cpu_groups := True\<rparr>), c)"
    by (simp add: set_cpu_groups_def)
  show ?thesis
    by (simp add: first second has_cpu_groups_def attr_def)
qed

theorem C9_set_cpu_groups_idempotent_witness:
  "ProcessGroup_init \<lparr>is_initialized = True, get_rank = 1, get_world_size = 4\<rparr>
     None None (Some 2) (Some 2) PyTorchProcessGroupDict_init =
   Inr (Initialized
         \<lparr>self_rank = 1, self_rank_list = [0, 1, 2, 3], self_world_size = 4,
          self_dp_degree = 2, self_tp_degree = 2,
          self_tp_rank_list = Some [0, 1], self_dp_rank_list = Some [1, 3],
          self_has_cpu_groups = False\<rparr>,
        \<lparr>dict =
           [((''nccl'', [0, 1]), 0), ((''nccl'', [2, 3]), 1),
            ((''nccl'', [0, 2]), 2), ((''nccl'', [1, 3]), 3)],
         new_group_calls =
           [([0, 1], ''nccl''), ([2, 3], ''nccl''), ([0, 2], ''nccl''), ([1, 3], ''nccl'')]\<rparr>) \<and>
   set_cpu_groups
     (Initialized
         \<lparr>self_rank = 1, self_rank_list = [0, 1, 2, 3], self_world_size = 4,
          self_dp_degree = 2, self_tp_degree = 2,
          self_tp_rank_list = Some [0, 1], self_dp_rank_list = Some [1, 3],
          self_has_cpu_groups = False\<rparr>) PyTorchProcessGroupDict_init =
   Inr (Initialized
         \<lparr>self_rank = 1, self_rank_list = [0, 1, 2, 3], self_world_size = 4,
          self_dp_degree = 2, self_tp_degree = 2,
          self_tp_rank_list = Some [0, 1], self_dp_rank_list = Some [1, 3],
          self_has_cpu_groups = True\<rparr>,
        register_all ''gloo'' [[0, 1], [2, 3], [0, 2], [1, 3]] PyTorchProcessGroupDict_init) \<and>
   set_cpu_groups
     (Initialized
         \<lparr>self_rank = 1, self_rank_list = [0, 1, 2, 3], self_world_size = 4,
          self_dp_degree = 2, self_tp_degree = 2,
          self_tp_rank_list = Some [0, 1], self_dp_rank_list = Some [1, 3],
          self_has_cpu_groups = True\<rparr>) PyTorchProcessGroupDict_init =
   Inr (Initialized
         \<lparr>self_rank = 1, self_rank_list = [0, 1, 2, 3], self_world_size = 4,
          self_dp_degree = 2, self_tp_degree = 2,
          self_tp_rank_list = Some [0, 1], self_dp_rank_list = Some [1, 3],
          self_has_cpu_groups = True\<rparr>, PyTorchProcessGroupDict_init)"
proof -
  let ?a = "\<lparr>self_rank = 1, self_rank_list = [0, 1, 2, 3], self_world_size = 4,
          self_dp_degree = 2, self_tp_degree = 2,
          self_tp_rank_list = Some [0, 1], self_dp_rank_list = Some [1, 3],
          self_has_cpu_groups = False\<rparr>"
  let ?s1 = "\<lparr>dict =
           [((''nccl'', [0, 1]), 0), ((''nccl'', [2, 3]), 1),
            ((''nccl'', [0, 2]), 2), ((''nccl'', [1, 3]), 3)],
         new_group_calls =
           [([0, 1], ''nccl''), ([2, 3], ''nccl''), ([0, 2], ''nccl''), ([1, 3], ''nccl'')]\<rparr>"
  have h: "ProcessGroup_init \<lparr>is_initialized = True, get_rank = 1, get_world_size = 4\<rparr>
     None None (Some 2) (Some 2) PyTorchProcessGroupDict_init = Inr (Initialized ?a, ?s1)"
    by code_simp
  have g: "grid_groups [0, 1, 2, 3] (nat 2) (nat 2) = [[0, 1], [2, 3], [0, 2], [1, 3]]"
    by code_simp
  from C9_set_cpu_groups_idempotent [OF h, of PyTorchProcessGroupDict_init PyTorchProcessGroupDict_init]
  show ?thesis using h g by simp
qed

section \<open>Claims about sharding and gathering\<close>

text \<open>
  C6: \<open>shard\<close> on a tensor that is not yet sharded, on a rank \<open>k\<close> of a group of
  size \<open>G\<close>, with \<open>N\<close> the number of elements of the payload.  Afterwards the tensor is
  marked as sharded and its payload is one-dimensional with \<open>chunk = ceil_div N G\<close>
  elements, on every rank \<open>k < G\<close>.  \<open>chunk\<close> is the ceiling of \<open>N / G\<close>: the least
  number \<open>c\<close> with \<open>N \<le> c * G\<close>.  The payload is the slice
  \<open>[k * chunk, (k + 1) * chunk)\<close> of the flattened payload padded with zeros to the
  length \<open>chunk * G\<close>: element \<open>i\<close> of the shard is element \<open>k * chunk + i\<close> of the
  original payload where that exists, and zero otherwise.
\<close>

theorem C6_shard_is_padded_slice:
  assumes "\<not> sp_is_shared sp" and "sp_local_rank sp < sp_world_size sp"
  shows "sp_is_shared (shard sp) \<and>
    numel (sp_param_payload (shard sp))
      = ceil_div (numel (sp_param_payload sp)) (sp_world_size sp) \<and>
    t_shape (sp_param_payload (shard sp))
      = [ceil_div (numel (sp_param_payload sp)) (sp_world_size sp)] \<and>
    numel (sp_param_payload sp)
      \<le> ceil_div (numel (sp_param_payload sp)) (sp_world_size sp) * sp_world_size sp \<and>
    (\<forall>c. numel (sp_param_payload sp) \<le> c * sp_world_size sp \<longrightarrow>
         ceil_div (numel (sp_param_payload sp)) (sp_world_size sp) \<le> c) \<and>
    t_data (sp_param_payload (shard sp))
      = take (ceil_div (numel (sp_param_payload sp)) (sp_world_size sp))
          (drop (sp_local_rank sp * ceil_div (numel (sp_param_payload sp)) (sp_world_size sp))
             (t_data (sp_param_payload sp) @
              replicate (ceil_div (numel (sp_param_payload sp)) (sp_world_size sp) * sp_world_size sp
                           - numel (sp_param_payload sp)) 0)) \<and>
    (\<forall>i<ceil_div (numel (sp_param_payload sp)) (sp_world_size sp).
       t_data (sp_param_payload (shard sp)) ! i
         = (if sp_local_rank sp * ceil_div (numel (sp_param_payload sp)) (sp_world_size sp) + i
                 < numel (sp_param_payload sp)
            then t_data (sp_param_payload sp)
                   ! (sp_local_rank sp * ceil_div (numel (sp_param_payload sp)) (sp_world_size sp) + i)
            else 0))"
proof -
  let ?t = "sp_param_payload sp"
  let ?k = "sp_local_rank sp"
  let ?G = "sp_world_size sp"
  have G: "0 < ?G" using assms(2) by simp
  have pl: "sp_param_payload (shard sp) = get_shard ?t ?k ?G"
    using assms(1) by (simp add: shard_def)
  have c1: "sp_is_shared (shard sp)" using assms(1) by (simp add: shard_def)
  have c2: "numel (sp_param_payload (shard sp)) = ceil_div (numel ?t) ?G"
    unfolding pl by (rule get_shard_numel [OF assms(2)])
  have c3: "t_shape (sp_param_payload (shard sp)) = [ceil_div (numel ?t) ?G]"
    unfolding pl get_shard_shape by (simp add: get_shard_numel [OF assms(2)])
  have c4: "numel ?t \<le> ceil_div (numel ?t) ?G * ?G" by (rule ceil_div_covers [OF G])
  have c5: "\<forall>c. numel ?t \<le> c * ?G \<longrightarrow> ceil_div (numel ?t) ?G \<le> c"
    using ceil_div_least [OF G] by blast
  have c6: "t_data (sp_param_payload (shard sp))
      = take (ceil_div (numel ?t) ?G)
          (drop (?k * ceil_div (numel ?t) ?G)
             (t_data ?t @ replicate (ceil_div (numel ?t) ?G * ?G - numel ?t) 0))"
    unfolding pl by (rule get_shard_data)
  have c7: "\<forall>i<ceil_div (numel ?t) ?G.
       t_data (sp_param_payload (shard sp)) ! i
         = (if ?k * ceil_div (numel ?t) ?G + i < numel ?t
            then t_data ?t ! (?k * ceil_div (numel ?t) ?G + i) else 0)"
    unfolding pl using get_shard_nth [OF assms(2)] by blast
  from c1 c2 c3 c4 c5 c6 c7 show ?thesis by (intro conjI)
qed

theorem C6_shard_is_padded_slice_witness:
  "\<not> sp_is_shared
       \<lparr>sp_world_size = 4, sp_local_rank = 3,
        sp_param_payload = \<lparr>t_data = [1, 2, 3, 4, 5, 6, 7, 8, 9, 10 :: int], t_shape = [2, 5], t_dtype = Float32\<rparr>,
        sp_origin_shape = [2, 5], sp_origin_numel = 10, sp_is_shared = False\<rparr> \<and>
   (3 :: nat) < 4 \<and>
   numel (sp_param_payload (shard
       \<lparr>sp_world_size = 4, sp_local_rank = 3,
        sp_param_payload = \<lparr>t_data = [1, 2, 3, 4, 5, 6, 7, 8, 9, 10 :: int], t_shape = [2, 5], t_dtype = Float32\<rparr>,
        sp_origin_shape = [2, 5], sp_origin_numel = 10, sp_is_shared = False\<rparr>)) = 3 \<and>
   t_data (sp_param_payload (shard
       \<lparr>sp_world_size = 4, sp_local_rank = 3,
        sp_param_payload = \<lparr>t_data = [1, 2, 3, 4, 5, 6, 7, 8, 9, 10 :: int], t_shape = [2, 5], t_dtype = Float32\<rparr>,
        sp_origin_shape = [2, 5], sp_origin_numel = 10, sp_is_shared = False\<rparr>)) = [10, 0, 0]"
proof -
  let ?sp = "\<lparr>sp_world_size = 4, sp_local_rank = 3,
        sp_param_payload = \<lparr>t_data = [1, 2, 3, 4, 5, 6, 7, 8, 9, 10 :: int], t_shape = [2, 5], t_dtype = Float32\<rparr>,
        sp_origin_shape = [2, 5], sp_origin_numel = 10, sp_is_shared = False\<rparr>"
  have h1: "\<not> sp_is_shared ?sp" by simp
  have h2: "sp_local_rank ?sp < sp_world_size ?sp" by simp
  have c: "ceil_div (numel (sp_param_payload ?sp)) (sp_world_size ?sp) = 3" by code_simp
  have v: "take (ceil_div (numel (sp_param_payload ?sp)) (sp_world_size ?sp))
          (drop (sp_local_rank ?sp * ceil_div (numel (sp_param_payload ?sp)) (sp_world_size ?sp))
             (t_data (sp_param_payload ?sp) @
              replicate (ceil_div (numel (sp_param_payload ?sp)) (sp_world_size ?sp) * sp_world_size ?sp
                           - numel (sp_param_payload ?sp)) 0)) = [10, 0, 0]"
    by code_simp
  note t = C6_shard_is_padded_slice [OF h1 h2]
  have "numel (sp_param_payload (shard ?sp))
          = ceil_div (numel (sp_param_payload ?sp)) (sp_world_size ?sp)"
    using t by blast
  then have n: "numel (sp_param_payload (shard ?sp)) = 3" unfolding c .
  have "t_data (sp_param_payload (shard ?sp))
      = take (ceil_div (numel (sp_param_payload ?sp)) (sp_world_size ?sp))
          (drop (sp_local_rank ?sp * ceil_div (numel (sp_param_payload ?sp)) (sp_world_size ?sp))
             (t_data (sp_param_payload ?sp) @
              replicate (ceil_div (numel (sp_param_payload ?sp)) (sp_world_size ?sp) * sp_world_size ?sp
                           - numel (sp_param_payload ?sp)) 0))"
    using t by blast
  then have d: "t_data (sp_param_payload (shard ?sp)) = [10, 0, 0]" unfolding v .
  from h1 n d show ?thesis by simp
qed

text \<open>
  C1: \<open>shard\<close> followed by \<open>gather\<close> on rank \<open>k\<close> of a group of size \<open>G\<close>, when each
  rank \<open>i\<close> of the group contributes the shard that \<open>shard\<close> produced on rank \<open>i\<close>.  The
  round trip gives back the wrapper as it was created, with the original elements and
  the original shape, exactly when the payload is \<^verbatim>\<open>float32\<close> or the group has one
  rank.  For a payload of any other dtype in a group of two or more ranks, \<open>gather\<close>
  fills the buffers of the other ranks with \<^verbatim>\<open>torch.zeros(payload_numel)\<close>, which
  are \<^verbatim>\<open>float32\<close>; the collective raises on the buffers of two dtypes, \<open>gather\<close>
  raises with it and the payload stays sharded.  Nothing is assumed about how the
  number of elements and \<open>G\<close> compare.
\<close>

theorem C1_shard_gather_roundtrip:
  assumes "wf_Parameter param" and "k < G"
  shows "gather (\<lambda>i. sp_param_payload (shard (ShardParam_init param tt G i)))
           (shard (ShardParam_init param tt G k))
         = (if G = 1 \<or> t_dtype (if tt = DATA then p_data param else p_grad param) = Float32
            then Inr (ShardParam_init param tt G k) else Inl RuntimeError) \<and>
         sp_is_shared (shard (ShardParam_init param tt G k)) \<and>
         sp_param_payload (ShardParam_init param tt G k)
           = (if tt = DATA then p_data param else p_grad param) \<and>
         \<not> sp_is_shared (ShardParam_init param tt G k)"
proof -
  define t where "t = (if tt = DATA then p_data param else p_grad param)"
  define sp where "sp = ShardParam_init param tt G k"
  define peers where "peers = (\<lambda>i. sp_param_payload (shard (ShardParam_init param tt G i)))"
  have fields: "\<not> sp_is_shared sp" "sp_local_rank sp = k" "sp_world_size sp = G"
    "sp_param_payload sp = t"
    by (simp_all add: sp_def ShardParam_init_def t_def)
  have wf: "wf_Tensor (sp_param_payload sp)"
    using assms(1) by (simp add: fields t_def wf_Parameter_def)
  have n: "sp_origin_numel sp = numel (sp_param_payload sp)"
    using assms(1)
    by (auto simp: sp_def ShardParam_init_def wf_Parameter_def wf_Tensor_def numel_def)
  have shp: "sp_origin_shape sp = t_shape (sp_param_payload sp)"
    using assms(1) by (simp add: sp_def ShardParam_init_def wf_Parameter_def)
  have peers: "peers i = get_shard (sp_param_payload sp) i (sp_world_size sp)" for i
    by (simp add: peers_def shard_def ShardParam_init_def fields t_def)
  have "gather peers (shard sp) =
           (if sp_world_size sp = 1 \<or> t_dtype (sp_param_payload sp) = Float32
            then Inr sp else Inl RuntimeError)"
    using assms(2) by (intro shard_then_gather fields(1) wf n shp peers) (simp add: fields)
  then have g: "gather peers (shard sp) =
           (if G = 1 \<or> t_dtype t = Float32 then Inr sp else Inl RuntimeError)"
    by (simp add: fields)
  have s: "sp_is_shared (shard sp)" using fields(1) by (simp add: shard_def)
  from g s fields(1,4) show ?thesis
    unfolding sp_def peers_def t_def by (intro conjI)
qed

theorem C1_shard_gather_roundtrip_witness:
  "wf_Parameter \<lparr>p_data = \<lparr>t_data = [1, 2, 3, 4 :: int], t_shape = [2, 2], t_dtype = Float16\<rparr>,
                  p_grad = \<lparr>t_data = [0, 0, 0, 0], t_shape = [2, 2], t_dtype = Float16\<rparr>\<rparr> \<and>
   (0 :: nat) < 2 \<and>
   sp_param_payload
     (shard (ShardParam_init
        \<lparr>p_data = \<lparr>t_data = [1, 2, 3, 4 :: int], t_shape = [2, 2], t_dtype = Float16\<rparr>,
         p_grad = \<lparr>t_data = [0, 0, 0, 0], t_shape = [2, 2], t_dtype = Float16\<rparr>\<rparr> DATA 2 0))
     = \<lparr>t_data = [1, 2], t_shape = [2], t_dtype = Float16\<rparr> \<and>
   gather
     (\<lambda>i. sp_param_payload (shard (ShardParam_init
        \<lparr>p_data = \<lparr>t_data = [1, 2, 3, 4 :: int], t_shape = [2, 2], t_dtype = Float16\<rparr>,
         p_grad = \<lparr>t_data = [0, 0, 0, 0], t_shape = [2, 2], t_dtype = Float16\<rparr>\<rparr> DATA 2 i)))
     (shard (ShardParam_init
        \<lparr>p_data = \<lparr>t_data = [1, 2, 3, 4 :: int], t_shape = [2, 2], t_dtype = Float16\<rparr>,
         p_grad = \<lparr>t_data = [0, 0, 0, 0], t_shape = [2, 2], t_dtype = Float16\<rparr>\<rparr> DATA 2 0))
     = Inl RuntimeError \<and>
   wf_Parameter \<lparr>p_data = \<lparr>t_data = [1, 2, 3, 4, 5, 6, 7, 8, 9, 10 :: int], t_shape = [2, 5],
                            t_dtype = Float32\<rparr>,
                  p_grad = \<lparr>t_data = [0, 0, 0, 0, 0, 0, 0, 0, 0, 0], t_shape = [2, 5],
                            t_dtype = Float32\<rparr>\<rparr> \<and>
   (3 :: nat) < 4 \<and>
   gather
     (\<lambda>i. sp_param_payload (shard (ShardParam_init
        \<lparr>p_data = \<lparr>t_data = [1, 2, 3, 4, 5, 6, 7, 8, 9, 10 :: int], t_shape = [2, 5],
                    t_dtype = Float32\<rparr>,
         p_grad = \<lparr>t_data = [0, 0, 0, 0, 0, 0, 0, 0, 0, 0], t_shape = [2, 5],
                    t_dtype = Float32\<rparr>\<rparr> DATA 4 i)))
     (shard (ShardParam_init
        \<lparr>p_data = \<lparr>t_data = [1, 2, 3, 4, 5, 6, 7, 8, 9, 10 :: int], t_shape = [2, 5],
                    t_dtype = Float32\<rparr>,
         p_grad = \<lparr>t_data = [0, 0, 0, 0, 0, 0, 0, 0, 0, 0], t_shape = [2, 5],
                    t_dtype = Float32\<rparr>\<rparr> DATA 4 3))
     = Inr \<lparr>sp_world_size = 4, sp_local_rank = 3,
            sp_param_payload = \<lparr>t_data = [1, 2, 3, 4, 5, 6, 7, 8, 9, 10], t_shape = [2, 5],
                                 t_dtype = Float32\<rparr>,
            sp_origin_shape = [2, 5], sp_origin_numel = 10, sp_is_shared = False\<rparr>"
proof -
  let ?h = "\<lparr>p_data = \<lparr>t_data = [1, 2, 3, 4 :: int], t_shape = [2, 2], t_dtype = Float16\<rparr>,
             p_grad = \<lparr>t_data = [0, 0, 0, 0], t_shape = [2, 2], t_dtype = Float16\<rparr>\<rparr>"
  let ?p = "\<lparr>p_data = \<lparr>t_data = [1, 2, 3, 4, 5, 6, 7, 8, 9, 10 :: int], t_shape = [2, 5],
                       t_dtype = Float32\<rparr>,
             p_grad = \<lparr>t_data = [0, 0, 0, 0, 0, 0, 0, 0, 0, 0], t_shape = [2, 5],
                       t_dtype = Float32\<rparr>\<rparr>"
  have a1: "wf_Parameter ?h" by (simp add: wf_Parameter_def wf_Tensor_def)
  have a2: "(0 :: nat) < 2" by simp
  have b1: "wf_Parameter ?p" by (simp add: wf_Parameter_def wf_Tensor_def)
  have b2: "(3 :: nat) < 4" by simp
  have sh: "sp_param_payload (shard (ShardParam_init ?h DATA 2 0))
              = \<lparr>t_data = [1, 2], t_shape = [2], t_dtype = Float16\<rparr>"
    by code_simp
  have v: "ShardParam_init ?p DATA 4 3 =
       \<lparr>sp_world_size = 4, sp_local_rank = 3,
        sp_param_payload = \<lparr>t_data = [1, 2, 3, 4, 5, 6, 7, 8, 9, 10], t_shape = [2, 5],
                             t_dtype = Float32\<rparr>,
        sp_origin_shape = [2, 5], sp_origin_numel = 10, sp_is_shared = False\<rparr>"
    by (simp add: ShardParam_init_def numel_def)
  from C1_shard_gather_roundtrip [OF a1 a2, of DATA]
  have bad: "gather (\<lambda>i. sp_param_payload (shard (ShardParam_init ?h DATA 2 i)))
          (shard (ShardParam_init ?h DATA 2 0)) = Inl RuntimeError"
    by simp
  from C1_shard_gather_roundtrip [OF b1 b2, of DATA]
  have good: "gather (\<lambda>i. sp_param_payload (shard (ShardParam_init ?p DATA 4 i)))
          (shard (ShardParam_init ?p DATA 4 3)) = Inr (ShardParam_init ?p DATA 4 3)"
    by simp
  show ?thesis unfolding v [symmetric] using a1 a2 sh bad b1 b2 good by (intro conjI)
qed

text \<open>
  C8, as stated, fails: \<open>gather\<close> does not compare the collected length with
  \<open>chunk * world_size\<close>.  With \<open>_origin_numel = 2\<close> and a group of two the contract asks
  for shards of one element; a sharded \<^verbatim>\<open>float32\<close> tensor that holds three elements,
  with a peer that contributes three, collects six elements instead of two, and
  \<open>gather\<close> returns the first two without any error.
\<close>

theorem C8_silent_truncation_counterexample:
  "sp_is_shared
     \<lparr>sp_world_size = 2, sp_local_rank = 0,
      sp_param_payload = \<lparr>t_data = [1, 2, 3 :: int], t_shape = [3], t_dtype = Float32\<rparr>,
      sp_origin_shape = [2], sp_origin_numel = 2, sp_is_shared = True\<rparr> \<and>
   ceil_div 2 2 = 1 \<and>
   collect (\<lambda>i. \<lparr>t_data = [4, 5, 6], t_shape = [3], t_dtype = Float32\<rparr>)
     \<lparr>sp_world_size = 2, sp_local_rank = 0,
      sp_param_payload = \<lparr>t_data = [1, 2, 3 :: int], t_shape = [3], t_dtype = Float32\<rparr>,
      sp_origin_shape = [2], sp_origin_numel = 2, sp_is_shared = True\<rparr>
     = Inr \<lparr>t_data = [1, 2, 3, 4, 5, 6], t_shape = [6], t_dtype = Float32\<rparr> \<and>
   (6 :: nat) \<noteq> ceil_div 2 2 * 2 \<and>
   gather (\<lambda>i. \<lparr>t_data = [4, 5, 6], t_shape = [3], t_dtype = Float32\<rparr>)
     \<lparr>sp_world_size = 2, sp_local_rank = 0,
      sp_param_payload = \<lparr>t_data = [1, 2, 3 :: int], t_shape = [3], t_dtype = Float32\<rparr>,
      sp_origin_shape = [2], sp_origin_numel = 2, sp_is_shared = True\<rparr>
     = Inr \<lparr>sp_world_size = 2, sp_local_rank = 0,
            sp_param_payload = \<lparr>t_data = [1, 2], t_shape = [2], t_dtype = Float32\<rparr>,
            sp_origin_shape = [2], sp_origin_numel = 2, sp_is_shared = False\<rparr>"
  by code_simp

text \<open>
  C8, amended: on a sharded tensor with a one-dimensional payload and a rank inside
  its group, whenever the collective completes (every buffer of the group has the
  dtype and the size of the local payload), \<open>gather\<close> collects
  \<open>world_size * payload_numel\<close> elements and fails exactly when that length is smaller
  than \<open>_origin_numel\<close>, with the runtime error of the truncation; when it is at
  least that long, \<open>gather\<close> returns the first \<open>_origin_numel\<close> collected elements in
  the original shape, whatever the relation of the collected length to
  \<open>chunk * world_size\<close>.
\<close>

theorem C8_gather_fails_iff_too_short:
  assumes "sp_is_shared sp" and "sp_local_rank sp < sp_world_size sp"
      and "prod_list (sp_origin_shape sp) = sp_origin_numel sp"
      and "t_shape (sp_param_payload sp) = [numel (sp_param_payload sp)]"
      and "all_gather peers (sp_local_rank sp) (buffer_list sp) (sp_param_payload sp) = Inr bufs"
      and "list_all wf_Tensor bufs"
  shows "collect peers sp =
           Inr \<lparr>t_data = concat (map t_data bufs),
                t_shape = [sp_world_size sp * numel (sp_param_payload sp)],
                t_dtype = t_dtype (sp_param_payload sp)\<rparr> \<and>
         length (concat (map t_data bufs)) = sp_world_size sp * numel (sp_param_payload sp) \<and>
         (\<forall>e. (gather peers sp = Inl e)
                = (e = RuntimeError \<and>
                   sp_world_size sp * numel (sp_param_payload sp) < sp_origin_numel sp)) \<and>
         (sp_origin_numel sp \<le> sp_world_size sp * numel (sp_param_payload sp) \<longrightarrow>
            gather peers sp =
              Inr (sp\<lparr>sp_param_payload :=
                        \<lparr>t_data = take (sp_origin_numel sp) (concat (map t_data bufs)),
                         t_shape = sp_origin_shape sp,
                         t_dtype = t_dtype (sp_param_payload sp)\<rparr>,
                      sp_is_shared := False\<rparr>))"
proof -
  let ?pl = "sp_param_payload sp"
  let ?G = "sp_world_size sp"
  let ?xs = "concat (map t_data bufs)"
  have col: "collect peers sp = Inr \<lparr>t_data = ?xs, t_shape = [?G * numel ?pl], t_dtype = t_dtype ?pl\<rparr>"
    by (rule collect_value [OF assms(2) assms(5) assms(4)])
  have each: "length (t_data b) = numel ?pl" if "b \<in> set bufs" for b
  proof -
    from all_gather_same_meta [OF assms(5) that] have "t_shape b = [numel ?pl]"
      by (simp add: same_meta_def assms(4))
    moreover have "wf_Tensor b" using assms(6) that by (simp add: list_all_iff)
    ultimately show ?thesis by (simp add: wf_Tensor_def)
  qed
  have "length bufs = ?G"
    using all_gather_InrD(1) [OF assms(5)] by (simp add: buffer_list_length)
  moreover have "length ?xs = length bufs * numel ?pl"
    using each by (induction bufs) simp_all
  ultimately have len: "length ?xs = ?G * numel ?pl" by simp
  have ok: "gather peers sp =
              Inr (sp\<lparr>sp_param_payload :=
                        \<lparr>t_data = take (sp_origin_numel sp) ?xs,
                         t_shape = sp_origin_shape sp, t_dtype = t_dtype ?pl\<rparr>,
                      sp_is_shared := False\<rparr>)"
    if "sp_origin_numel sp \<le> ?G * numel ?pl"
    by (rule gather_value [OF assms(1) col that len assms(3)])
  have bad: "gather peers sp = Inl RuntimeError" if "?G * numel ?pl < sp_origin_numel sp"
    by (rule gather_short [OF assms(1) col that])
  have iff: "(gather peers sp = Inl e)
                = (e = RuntimeError \<and> ?G * numel ?pl < sp_origin_numel sp)" for e
  proof (cases "?G * numel ?pl < sp_origin_numel sp")
    case True
    then show ?thesis using bad by auto
  next
    case False
    then have "sp_origin_numel sp \<le> ?G * numel ?pl" by simp
    from ok [OF this] False show ?thesis by simp
  qed
  from col len iff ok show ?thesis by blast
qed

theorem C8_gather_fails_iff_too_short_witness:
  "sp_is_shared
     \<lparr>sp_world_size = 2, sp_local_rank = 0,
      sp_param_payload = \<lparr>t_data = [1, 2, 3 :: int], t_shape = [3], t_dtype = Float32\<rparr>,
      sp_origin_shape = [10], sp_origin_numel = 10, sp_is_shared = True\<rparr> \<and>
   (0 :: nat) < 2 \<and> prod_list [10 :: nat] = 10 \<and>
   all_gather (\<lambda>i. \<lparr>t_data = [4, 5, 6], t_shape = [3], t_dtype = Float32\<rparr>) 0
     (buffer_list
        \<lparr>sp_world_size = 2, sp_local_rank = 0,
         sp_param_payload = \<lparr>t_data = [1, 2, 3 :: int], t_shape = [3], t_dtype = Float32\<rparr>,
         sp_origin_shape = [10], sp_origin_numel = 10, sp_is_shared = True\<rparr>)
     \<lparr>t_data = [1, 2, 3 :: int], t_shape = [3], t_dtype = Float32\<rparr>
     = Inr [\<lparr>t_data = [1, 2, 3], t_shape = [3], t_dtype = Float32\<rparr>,
            \<lparr>t_data = [4, 5, 6], t_shape = [3], t_dtype = Float32\<rparr>] \<and>
   gather (\<lambda>i. \<lparr>t_data = [4, 5, 6], t_shape = [3], t_dtype = Float32\<rparr>)
     \<lparr>sp_world_size = 2, sp_local_rank = 0,
      sp_param_payload = \<lparr>t_data = [1, 2, 3 :: int], t_shape = [3], t_dtype = Float32\<rparr>,
      sp_origin_shape = [10], sp_origin_numel = 10, sp_is_shared = True\<rparr>
     = Inl RuntimeError"
proof -
  let ?pl = "\<lparr>t_data = [1, 2, 3 :: int], t_shape = [3], t_dtype = Float32\<rparr>"
  let ?sp = "\<lparr>sp_world_size = 2, sp_local_rank = 0, sp_param_payload = ?pl,
      sp_origin_shape = [10], sp_origin_numel = 10, sp_is_shared = True\<rparr>"
  let ?peers = "\<lambda>i::nat. \<lparr>t_data = [4, 5, 6 :: int], t_shape = [3], t_dtype = Float32\<rparr>"
  let ?bufs = "[?pl, \<lparr>t_data = [4, 5, 6 :: int], t_shape = [3], t_dtype = Float32\<rparr>]"
  have h1: "sp_is_shared ?sp" by simp
  have h2: "sp_local_rank ?sp < sp_world_size ?sp" by simp
  have h3: "prod_list (sp_origin_shape ?sp) = sp_origin_numel ?sp" by simp
  have h4: "t_shape (sp_param_payload ?sp) = [numel (sp_param_payload ?sp)]"
    by (simp add: numel_def)
  have ag: "all_gather ?peers 0 (buffer_list ?sp) ?pl = Inr ?bufs" by code_simp
  then have h5: "all_gather ?peers (sp_local_rank ?sp) (buffer_list ?sp) (sp_param_payload ?sp)
                   = Inr ?bufs" by simp
  have h6: "list_all wf_Tensor ?bufs" by (simp add: wf_Tensor_def)
  from C8_gather_fails_iff_too_short [OF h1 h2 h3 h4 h5 h6]
  have "\<forall>e. (gather ?peers ?sp = Inl e)
                = (e = RuntimeError \<and>
                   sp_world_size ?sp * numel (sp_param_payload ?sp) < sp_origin_numel ?sp)"
    by blast
  then have "gather ?peers ?sp = Inl RuntimeError" by (simp add: numel_def)
  with h1 ag show ?thesis by simp
qed

end
